theory Spec2Isabelle
  imports Main "HOL-Library.Word"
begin

section \<open>Errors\<close>

text \<open>
  The error values the services return. \<open>ErrRecordNotFound\<close> and
  \<open>ErrDuplicatedKey\<close> are gorm's sentinels, \<open>ErrDriver\<close> is any other failure the
  database driver reports, the next three are the sentinels of package \<open>user\<close>, the two
  after them the \<open>errors.New\<close> values of \<open>CreateUser\<close>, and \<open>ErrInvalidKey\<close> and
  \<open>ErrJWT\<close> come from the JWT library. The last three are the Token Codec's errors as
  the specification names them.
\<close>

datatype error =
    ErrRecordNotFound
  | ErrDuplicatedKey
  | ErrDriver string
  | ErrUserAlreadyExists
  | ErrInvalidCredentials
  | ErrUserNotFound
  | ErrEmailEmpty
  | ErrPasswordEmpty
  | ErrInvalidKey
  | ErrJWT string
  | ErrBadSignature
  | ErrMalformed
  | ErrExpired

section \<open>Decimal formatting\<close>

text \<open>
  \<open>natDigits\<close> is the decimal rendering of an unsigned magnitude, most significant
  digit first, as \<open>fmt\<close> and \<open>strconv\<close> produce it. \<open>Sprintf04d\<close> is
  \<open>fmt.Sprintf("%04d", n)\<close>: with the zero flag and width 4 the digits are padded with
  zeros to the width, one column of which is taken by the sign of a negative number.
\<close>

definition digit_char :: "nat \<Rightarrow> char" where
  "digit_char d = ''0123456789'' ! (d mod 10)"

function natDigits :: "nat \<Rightarrow> string" where
  "natDigits n = (if n < 10 then [digit_char n] else natDigits (n div 10) @ [digit_char (n mod 10)])"
  by pat_completeness auto
termination
  by (relation "measure (\<lambda>n. n)") auto

declare natDigits.simps [simp del]

definition zeroPad :: "nat \<Rightarrow> string \<Rightarrow> string" where
  "zeroPad w s = replicate (w - length s) (CHR ''0'') @ s"

definition Sprintf04d :: "int \<Rightarrow> string" where
  "Sprintf04d i =
     (if i < 0 then CHR ''-'' # zeroPad 3 (natDigits (nat (- i)))
      else zeroPad 4 (natDigits (nat i)))"

text \<open>Reading a digit string back (used only to state what the formatting preserves).\<close>

definition digit_val :: "char \<Rightarrow> nat" where
  "digit_val c = of_char c - 48"

definition digitsValue :: "string \<Rightarrow> nat" where
  "digitsValue s = foldl (\<lambda>acc c. 10 * acc + digit_val c) 0 s"

section \<open>Persisted rows\<close>

text \<open>
  The gorm models of package \<open>database\<close>, restricted to the columns the modelled
  operations read or write. \<open>Number\<close> is a Go \<open>int\<close> (64 bits, two's complement);
  primary keys are \<open>uint\<close> and never computed with, so they are naturals. The key of
  an inserted row is assigned by the database (auto-increment): the model takes it as a
  parameter of the call that inserts. Instants are nanoseconds since the Unix epoch.
\<close>

record User =
  Email :: string
  Password :: string
  Prefix :: string
  ActiveOrganizationID :: nat

record Organization =
  OrgID :: nat
  Name :: string

record BackPackIdNextNumber =
  ID :: nat
  BackpackID :: string
  Number :: "64 word"

record ResetToken =
  TokenID :: nat
  Token :: string
  ExpiredAt :: int
  UserEmail :: string

record DB =
  users :: "User list"
  organizations :: "Organization list"
  organization_users :: "(nat \<times> string) list"
  backpack_id_next_numbers :: "BackPackIdNextNumber list"
  reset_tokens :: "ResetToken list"

section \<open>The ID allocator (package item)\<close>

text \<open>
  The driver can fail any statement. \<open>nextIDFaults\<close> says, for one call of
  \<open>getNextID\<close>, which of its statements the driver fails and with what error
  (\<open>None\<close>: the statement runs). The source does not check \<open>Begin\<close>; a transaction
  that failed to begin reports its error at the first statement, so that failure is a
  \<open>findErr\<close>. \<open>uniqueErr\<close> is the error the driver reports when an insert violates
  the unique index on \<open>backpack_id\<close>, and \<open>newID\<close> is the key the database assigns
  to a row the call inserts.
\<close>

record nextIDFaults =
  findErr :: "error option"
  createErr :: "error option"
  saveErr :: "error option"
  commitErr :: "error option"
  uniqueErr :: error
  newID :: nat

text \<open>
  An example: no failure, and the key 2 for an inserted row (the example tables hold
  the key 1).
\<close>

definition noNextIDFaults :: nextIDFaults where
  "noNextIDFaults =
     \<lparr>findErr = None, createErr = None, saveErr = None, commitErr = None,
      uniqueErr = ErrDriver ''duplicate key value violates unique constraint'', newID = 2\<rparr>"

text \<open>\<open>tx.Where("backpack_id = ?", prefix).First(&nextNumber)\<close>\<close>

definition firstNextNumber ::
  "error option \<Rightarrow> BackPackIdNextNumber list \<Rightarrow> string \<Rightarrow> error + BackPackIdNextNumber" where
  "firstNextNumber fault rows prefix =
     (case fault of
        Some e \<Rightarrow> Inl e
      | None \<Rightarrow>
          (case find (\<lambda>r. BackpackID r = prefix) rows of
             None \<Rightarrow> Inl ErrRecordNotFound
           | Some r \<Rightarrow> Inr r))"

text \<open>\<open>tx.Create(&nextNumber)\<close>: the row gets the key \<open>key\<close> and is appended.\<close>

definition createNextNumber ::
  "error option \<Rightarrow> error \<Rightarrow> nat \<Rightarrow> BackPackIdNextNumber list \<Rightarrow> BackPackIdNextNumber
     \<Rightarrow> error + (BackPackIdNextNumber \<times> BackPackIdNextNumber list)" where
  "createNextNumber fault uniq key rows r =
     (case fault of
        Some e \<Rightarrow> Inl e
      | None \<Rightarrow>
          if \<exists>q \<in> set rows. BackpackID q = BackpackID r then Inl uniq
          else (let r' = r\<lparr>ID := key\<rparr> in Inr (r', rows @ [r'])))"

text \<open>\<open>tx.Save(&nextNumber)\<close>: every column of the row with this key is written.\<close>

definition saveNextNumber ::
  "error option \<Rightarrow> BackPackIdNextNumber list \<Rightarrow> BackPackIdNextNumber
     \<Rightarrow> error + BackPackIdNextNumber list" where
  "saveNextNumber fault rows r =
     (case fault of
        Some e \<Rightarrow> Inl e
      | None \<Rightarrow> Inr (map (\<lambda>q. if ID q = ID r then r else q) rows))"

text \<open>
  \<open>getNextID\<close> returns the formatted sequence number or the error, and the database
  after the call. The transaction works on \<open>tx\<close>; every \<open>Rollback\<close> and a failed
  \<open>Commit\<close> leave the database as it was.
\<close>

definition commitNextID ::
  "nextIDFaults \<Rightarrow> DB \<Rightarrow> BackPackIdNextNumber list \<Rightarrow> BackPackIdNextNumber
     \<Rightarrow> (error + string) \<times> DB" where
  "commitNextID f db rows nextNumber =
     (case commitErr f of
        Some e \<Rightarrow> (Inl e, db)
      | None \<Rightarrow>
          (Inr (Sprintf04d (sint (Number nextNumber))),
           db\<lparr>backpack_id_next_numbers := rows\<rparr>))"

definition getNextID :: "nextIDFaults \<Rightarrow> DB \<Rightarrow> string \<Rightarrow> (error + string) \<times> DB" where
  "getNextID f db prefix =
     (let tx = backpack_id_next_numbers db in
      case firstNextNumber (findErr f) tx prefix of
        Inl err \<Rightarrow>
          if err = ErrRecordNotFound then
            (case createNextNumber (createErr f) (uniqueErr f) (newID f) tx
                    \<lparr>ID = 0, BackpackID = prefix, Number = 1\<rparr> of
               Inl e \<Rightarrow> (Inl e, db)
             | Inr (nextNumber, tx') \<Rightarrow> commitNextID f db tx' nextNumber)
          else (Inl err, db)
      | Inr found \<Rightarrow>
          (let nextNumber = found\<lparr>Number := Number found + 1\<rparr> in
           case saveNextNumber (saveErr f) tx nextNumber of
             Inl e \<Rightarrow> (Inl e, db)
           | Inr tx' \<Rightarrow> commitNextID f db tx' nextNumber))"

text \<open>The counter stored for a prefix, if any.\<close>

definition storedNumber :: "DB \<Rightarrow> string \<Rightarrow> 64 word option" where
  "storedNumber db prefix =
     map_option Number (find (\<lambda>r. BackpackID r = prefix) (backpack_id_next_numbers db))"

text \<open>
  \<open>k\<close> successive calls of \<open>getNextID\<close> for one prefix, each on the database the call
  before it left: the results in order, and the final database.
\<close>

fun getNextIDs :: "nextIDFaults \<Rightarrow> DB \<Rightarrow> string \<Rightarrow> nat \<Rightarrow> (error + string) list \<times> DB" where
  "getNextIDs f db prefix 0 = ([], db)"
| "getNextIDs f db prefix (Suc k) =
     (let (r, db') = getNextID f db prefix;
          (rs, db'') = getNextIDs f db' prefix k
      in (r # rs, db''))"

text \<open>The counter a prefix stands at: the stored number, or 0 before its first allocation.\<close>

definition priorNumber :: "DB \<Rightarrow> string \<Rightarrow> 64 word" where
  "priorNumber db prefix = (case storedNumber db prefix of None \<Rightarrow> 0 | Some n \<Rightarrow> n)"

subsection \<open>Concurrent allocations\<close>

text \<open>
  \<open>getNextID\<close> in the two steps other requests can come between: the \<open>First\<close>
  statement, whose result the request keeps in its variables, and then the \<open>Create\<close>
  or the \<open>Save\<close> with the \<open>Commit\<close> and the formatting.
\<close>

definition getNextID_select :: "nextIDFaults \<Rightarrow> DB \<Rightarrow> string \<Rightarrow> error + BackPackIdNextNumber" where
  "getNextID_select f db prefix =
     firstNextNumber (findErr f) (backpack_id_next_numbers db) prefix"

definition getNextID_write ::
  "nextIDFaults \<Rightarrow> DB \<Rightarrow> string \<Rightarrow> error + BackPackIdNextNumber \<Rightarrow> (error + string) \<times> DB" where
  "getNextID_write f db prefix selected =
     (let tx = backpack_id_next_numbers db in
      case selected of
        Inl err \<Rightarrow>
          if err = ErrRecordNotFound then
            (case createNextNumber (createErr f) (uniqueErr f) (newID f) tx
                    \<lparr>ID = 0, BackpackID = prefix, Number = 1\<rparr> of
               Inl e \<Rightarrow> (Inl e, db)
             | Inr (nextNumber, tx') \<Rightarrow> commitNextID f db tx' nextNumber)
          else (Inl err, db)
      | Inr found \<Rightarrow>
          (let nextNumber = found\<lparr>Number := Number found + 1\<rparr> in
           case saveNextNumber (saveErr f) tx nextNumber of
             Inl e \<Rightarrow> (Inl e, db)
           | Inr tx' \<Rightarrow> commitNextID f db tx' nextNumber))"

text \<open>
  Requests that run concurrently. The isolation is the database engine's, modelled
  from its documentation: the repository opens PostgreSQL (\<open>NewDatabase\<close>) and
  \<open>getNextID\<close> begins its transaction without options, so it runs at the engine's
  default level, read committed. There a \<open>SELECT\<close> sees the rows committed before it
  and takes no lock, and a row that a transaction has written stays locked until that
  transaction ends, so that no other request writes between a request's write and its
  commit. A request is therefore waiting, or has selected, or has finished with its
  result; a step of request \<open>i\<close> is its \<open>SELECT\<close> on the committed database, or its
  write and commit on the committed database; a schedule is the order of the steps.
\<close>

datatype request = Waiting | Selected "error + BackPackIdNextNumber" | Finished "error + string"

definition stepRequest ::
  "nextIDFaults \<Rightarrow> string \<Rightarrow> DB \<times> request list \<Rightarrow> nat \<Rightarrow> DB \<times> request list" where
  "stepRequest f prefix s i =
     (let (db, rs) = s in
      if length rs \<le> i then s
      else case rs ! i of
        Waiting \<Rightarrow> (db, rs[i := Selected (getNextID_select f db prefix)])
      | Selected selected \<Rightarrow>
          (let (r, db') = getNextID_write f db prefix selected in (db', rs[i := Finished r]))
      | Finished r \<Rightarrow> s)"

definition runSchedule ::
  "nextIDFaults \<Rightarrow> string \<Rightarrow> DB \<Rightarrow> nat \<Rightarrow> nat list \<Rightarrow> DB \<times> request list" where
  "runSchedule f prefix db n schedule =
     foldl (stepRequest f prefix) (db, replicate n Waiting) schedule"


section \<open>The JWT service (package jwt)\<close>

text \<open>
  A claim set is a \<open>jwt.MapClaims\<close>, a \<open>map[string]interface{}\<close>: a claim can hold
  a value of any JSON type, and the service reads one with a checked type assertion
  (\<open>claims["email"].(string)\<close>), which \<open>asString\<close> models: the value and the
  \<open>ok\<close> flag.
\<close>

datatype claim_value = VString string | VNumber int | VBool bool | VNull

type_synonym MapClaims = "string \<rightharpoonup> claim_value"

fun asString :: "claim_value option \<Rightarrow> string \<times> bool" where
  "asString (Some (VString s)) = (s, True)"
| "asString _ = ([], False)"

text \<open>
  The signing library (\<open>github.com/golang-jwt/jwt/v5\<close>) is not part of the repository;
  the service is modelled over any implementation of the two calls it makes.
  \<open>SignedString key claims\<close> is \<open>jwt.NewWithClaims(jwt.SigningMethodHS256,
  claims).SignedString(key)\<close>. \<open>Parse tokenString key now\<close> is \<open>jwt.Parse(tokenString,
  keyFunc)\<close> with a key function that returns \<open>key\<close>, called when the clock reads
  \<open>now\<close>; its result holds the returned error, the token's \<open>Valid\<close> flag and its
  \<open>Claims\<close> (\<open>None\<close> when they are not a \<open>MapClaims\<close>).
\<close>

record ParsedToken =
  parseErr :: "error option"
  Valid :: bool
  Claims :: "MapClaims option"

record JWTLibrary =
  SignedString :: "string \<Rightarrow> MapClaims \<Rightarrow> error + string"
  Parse :: "string \<Rightarrow> string \<Rightarrow> int \<Rightarrow> ParsedToken"

text \<open>Durations are nanoseconds (\<open>time.Duration\<close>).\<close>

record JWTConfig =
  SecretKey :: string
  AccessTokenDuration :: int
  RefreshTokenDuration :: int

record TokenResponse =
  token :: string
  refresh_token :: string

text \<open>\<open>t.Unix()\<close>: the whole seconds of an instant given in nanoseconds.\<close>

definition Unix :: "int \<Rightarrow> int" where
  "Unix t = t div 1000000000"

text \<open>
  Each generator reads the clock once (\<open>now\<close>). The \<open>log.Printf\<close> calls of
  \<open>GenerateTokenPair\<close> are left out.
\<close>

definition GenerateToken :: "JWTLibrary \<Rightarrow> JWTConfig \<Rightarrow> int \<Rightarrow> string \<Rightarrow> int \<Rightarrow> error + string" where
  "GenerateToken lib cfg now email expiry =
     SignedString lib (SecretKey cfg)
       [''email'' \<mapsto> VString email, ''exp'' \<mapsto> VNumber (Unix (now + expiry))]"

definition GenerateAccessToken :: "JWTLibrary \<Rightarrow> JWTConfig \<Rightarrow> int \<Rightarrow> string \<Rightarrow> error + string" where
  "GenerateAccessToken lib cfg now email =
     SignedString lib (SecretKey cfg)
       [''email'' \<mapsto> VString email, ''token_type'' \<mapsto> VString ''access'',
        ''exp'' \<mapsto> VNumber (Unix (now + AccessTokenDuration cfg))]"

definition GenerateRefreshToken :: "JWTLibrary \<Rightarrow> JWTConfig \<Rightarrow> int \<Rightarrow> string \<Rightarrow> error + string" where
  "GenerateRefreshToken lib cfg now email =
     SignedString lib (SecretKey cfg)
       [''email'' \<mapsto> VString email, ''token_type'' \<mapsto> VString ''refresh'',
        ''exp'' \<mapsto> VNumber (Unix (now + RefreshTokenDuration cfg))]"

text \<open>\<open>nowA\<close> and \<open>nowR\<close> are the clock readings of the two generators.\<close>

definition GenerateTokenPair ::
  "JWTLibrary \<Rightarrow> JWTConfig \<Rightarrow> int \<Rightarrow> int \<Rightarrow> string \<Rightarrow> error + TokenResponse" where
  "GenerateTokenPair lib cfg nowA nowR email =
     (case GenerateAccessToken lib cfg nowA email of
        Inl err \<Rightarrow> Inl err
      | Inr accessToken \<Rightarrow>
          (case GenerateRefreshToken lib cfg nowR email of
             Inl err \<Rightarrow> Inl err
           | Inr refreshToken \<Rightarrow>
               Inr \<lparr>token = accessToken, refresh_token = refreshToken\<rparr>))"

text \<open>
  The validators return Go's pair \<open>(email, err)\<close>. The first branch returns the
  library's error as it is, which is \<open>nil\<close> when the library reports no error for a
  token that is not \<open>Valid\<close>.
\<close>

definition ValidateToken :: "JWTLibrary \<Rightarrow> JWTConfig \<Rightarrow> int \<Rightarrow> string \<Rightarrow> string \<times> error option" where
  "ValidateToken lib cfg now tokenString =
     (let tok = Parse lib tokenString (SecretKey cfg) now in
      if parseErr tok \<noteq> None \<or> \<not> Valid tok then ([], parseErr tok)
      else case Claims tok of
        None \<Rightarrow> ([], Some ErrInvalidKey)
      | Some claims \<Rightarrow>
          (let (tokenType, ok) = asString (claims ''token_type'') in
           if ok \<and> tokenType \<noteq> ''access'' then ([], Some ErrInvalidKey)
           else
             (let (email, ok) = asString (claims ''email'') in
              if \<not> ok then ([], Some ErrInvalidKey) else (email, None))))"

definition ValidateRefreshToken ::
  "JWTLibrary \<Rightarrow> JWTConfig \<Rightarrow> int \<Rightarrow> string \<Rightarrow> string \<times> error option" where
  "ValidateRefreshToken lib cfg now tokenString =
     (let tok = Parse lib tokenString (SecretKey cfg) now in
      if parseErr tok \<noteq> None \<or> \<not> Valid tok then ([], parseErr tok)
      else case Claims tok of
        None \<Rightarrow> ([], Some ErrInvalidKey)
      | Some claims \<Rightarrow>
          (let (tokenType, ok) = asString (claims ''token_type'') in
           if ok \<and> tokenType \<noteq> ''refresh'' then ([], Some ErrInvalidKey)
           else
             (let (email, ok) = asString (claims ''email'') in
              if \<not> ok then ([], Some ErrInvalidKey) else (email, None))))"

definition GetAccessTokenDuration :: "JWTConfig \<Rightarrow> int" where
  "GetAccessTokenDuration cfg = AccessTokenDuration cfg"

subsection \<open>The earlier JWT service\<close>

text \<open>
  The repository holds a second, earlier version of the service: the same
  \<open>GenerateToken\<close>, a \<open>GenerateTokenPair\<close> that signs two tokens without a kind, and a
  \<open>ValidateToken\<close> that does not look at \<open>token_type\<close>.
\<close>

definition GenerateTokenPair_basic ::
  "JWTLibrary \<Rightarrow> JWTConfig \<Rightarrow> int \<Rightarrow> int \<Rightarrow> string \<Rightarrow> error + TokenResponse" where
  "GenerateTokenPair_basic lib cfg nowA nowR email =
     (case GenerateToken lib cfg nowA email (AccessTokenDuration cfg) of
        Inl err \<Rightarrow> Inl err
      | Inr accessToken \<Rightarrow>
          (case GenerateToken lib cfg nowR email (RefreshTokenDuration cfg) of
             Inl err \<Rightarrow> Inl err
           | Inr refreshToken \<Rightarrow>
               Inr \<lparr>token = accessToken, refresh_token = refreshToken\<rparr>))"

definition ValidateToken_basic ::
  "JWTLibrary \<Rightarrow> JWTConfig \<Rightarrow> int \<Rightarrow> string \<Rightarrow> string \<times> error option" where
  "ValidateToken_basic lib cfg now tokenString =
     (let tok = Parse lib tokenString (SecretKey cfg) now in
      if parseErr tok \<noteq> None \<or> \<not> Valid tok then ([], parseErr tok)
      else case Claims tok of
        None \<Rightarrow> ([], Some ErrInvalidKey)
      | Some claims \<Rightarrow>
          (let (email, ok) = asString (claims ''email'') in
           if \<not> ok then ([], Some ErrInvalidKey) else (email, None)))"

section \<open>The Token Codec\<close>

text \<open>
  Modelled from the spec: the Token Codec's \<open>Encode\<close> and \<open>Decode\<close> (section 4.2),
  which the repository takes from the signing library and which are therefore not under
  its sources. The codec signs claim sets of the supported fields (\<open>email\<close>, the kind
  \<open>token_type\<close>, the expiry \<open>exp\<close> in seconds since the epoch) with one symmetric
  secret; \<open>Decode\<close> rejects a string that is not a token (\<open>ErrMalformed\<close>), a token
  signed with another secret (\<open>ErrBadSignature\<close>), and, comparing with the clock at
  decode time, a token whose \<open>exp\<close> is in the past (\<open>ErrExpired\<close>). The spec fixes no
  wire format: here a token is the sequence of its length-framed fields, and the
  signature is modelled by the secret itself, so that a token verifies exactly under the
  secret it was signed with.
\<close>

definition frame :: "string \<Rightarrow> string" where
  "frame s = replicate (length s) (CHR ''+'') @ CHR ''.'' # s"

definition unframe :: "string \<Rightarrow> (string \<times> string) option" where
  "unframe t =
     (let n = length (takeWhile (\<lambda>c. c = CHR ''+'') t) in
      case drop n t of
        [] \<Rightarrow> None
      | c # r \<Rightarrow> if n \<le> length r then Some (take n r, drop n r) else None)"

fun encodeValue :: "claim_value option \<Rightarrow> string" where
  "encodeValue None = ''-''"
| "encodeValue (Some (VString s)) = CHR ''s'' # s"
| "encodeValue (Some (VNumber i)) =
     (if i < 0 then CHR ''m'' # natDigits (nat (- i)) else CHR ''n'' # natDigits (nat i))"
| "encodeValue (Some (VBool b)) = (if b then ''t'' else ''f'')"
| "encodeValue (Some VNull) = ''z''"

definition decodeValue :: "string \<Rightarrow> claim_value option option" where
  "decodeValue t =
     (case t of
        [] \<Rightarrow> None
      | c # r \<Rightarrow>
          if c = CHR ''-'' \<and> r = [] then Some None
          else if c = CHR ''s'' then Some (Some (VString r))
          else if c = CHR ''m'' then Some (Some (VNumber (- int (digitsValue r))))
          else if c = CHR ''n'' then Some (Some (VNumber (int (digitsValue r))))
          else if c = CHR ''t'' \<and> r = [] then Some (Some (VBool True))
          else if c = CHR ''f'' \<and> r = [] then Some (Some (VBool False))
          else if c = CHR ''z'' \<and> r = [] then Some (Some VNull)
          else None)"

text \<open>
  Modelled from the spec: \<open>Encode(claims) -> signedString\<close> of the Token Codec, which
  is the signing library's and not under the repository's sources. It signs with the
  one secret and does not fail.
\<close>

definition Encode :: "string \<Rightarrow> MapClaims \<Rightarrow> error + string" where
  "Encode key claims =
     Inr (frame key @ frame (encodeValue (claims ''email''))
            @ frame (encodeValue (claims ''token_type''))
            @ frame (encodeValue (claims ''exp'')))"

definition fieldClaims ::
  "claim_value option \<Rightarrow> claim_value option \<Rightarrow> claim_value option \<Rightarrow> MapClaims" where
  "fieldClaims e t x =
     (\<lambda>k. if k = ''email'' then e else if k = ''token_type'' then t
          else if k = ''exp'' then x else None)"

definition malformedToken :: ParsedToken where
  "malformedToken = \<lparr>parseErr = Some ErrMalformed, Valid = False, Claims = None\<rparr>"

text \<open>
  Modelled from the spec: an \<open>exp\<close> claim in the past at decode time, that is, the
  claimed second lies before the instant the clock reads.
\<close>

definition expiredAt :: "claim_value option \<Rightarrow> int \<Rightarrow> bool" where
  "expiredAt x now = (case x of Some (VNumber s) \<Rightarrow> s * 1000000000 < now | _ \<Rightarrow> False)"

text \<open>
  Modelled from the spec: \<open>Decode(signedString) -> claims | ErrBadSignature |
  ErrMalformed\<close> of the Token Codec, which is the signing library's and not under the
  repository's sources. It rejects a token whose signature does not verify against the
  secret, and rejects as expired a token whose \<open>exp\<close> is in the past at decode time.
\<close>

definition Decode :: "string \<Rightarrow> string \<Rightarrow> int \<Rightarrow> ParsedToken" where
  "Decode tokenString key now =
     (case unframe tokenString of
        None \<Rightarrow> malformedToken
      | Some (k, r1) \<Rightarrow>
     (case unframe r1 of
        None \<Rightarrow> malformedToken
      | Some (e, r2) \<Rightarrow>
     (case unframe r2 of
        None \<Rightarrow> malformedToken
      | Some (t, r3) \<Rightarrow>
     (case unframe r3 of
        None \<Rightarrow> malformedToken
      | Some (x, r4) \<Rightarrow>
     (case (decodeValue e, decodeValue t, decodeValue x) of
        (Some ev, Some tv, Some xv) \<Rightarrow>
          if r4 \<noteq> [] then malformedToken
          else if k \<noteq> key then
            \<lparr>parseErr = Some ErrBadSignature, Valid = False, Claims = Some (fieldClaims ev tv xv)\<rparr>
          else if expiredAt xv now then
            \<lparr>parseErr = Some ErrExpired, Valid = False, Claims = Some (fieldClaims ev tv xv)\<rparr>
          else \<lparr>parseErr = None, Valid = True, Claims = Some (fieldClaims ev tv xv)\<rparr>
      | _ \<Rightarrow> malformedToken)))))"

definition specCodec :: JWTLibrary where
  "specCodec = \<lparr>SignedString = Encode, Parse = Decode\<rparr>"

section \<open>The user service (package user)\<close>

text \<open>\<open>s.db.First(&user, "email = ?", email)\<close>, with the driver's failure if any.\<close>

definition firstUser :: "error option \<Rightarrow> User list \<Rightarrow> string \<Rightarrow> error + User" where
  "firstUser fault rows email =
     (case fault of
        Some e \<Rightarrow> Inl e
      | None \<Rightarrow>
          (case find (\<lambda>u. Email u = email) rows of
             None \<Rightarrow> Inl ErrRecordNotFound
           | Some u \<Rightarrow> Inr u))"

definition ValidateUser :: "error option \<Rightarrow> DB \<Rightarrow> string \<Rightarrow> string \<Rightarrow> error option" where
  "ValidateUser fault db email password =
     (case firstUser fault (users db) email of
        Inl err \<Rightarrow> if err = ErrRecordNotFound then Some ErrInvalidCredentials else Some err
      | Inr user \<Rightarrow> if Password user \<noteq> password then Some ErrInvalidCredentials else None)"

definition GetUser :: "error option \<Rightarrow> DB \<Rightarrow> string \<Rightarrow> error + User" where
  "GetUser fault db email =
     (case firstUser fault (users db) email of
        Inl err \<Rightarrow> if err = ErrRecordNotFound then Inl ErrUserNotFound else Inl err
      | Inr user \<Rightarrow> Inr user)"

subsection \<open>Registration\<close>

text \<open>
  \<open>createUserFaults\<close>: the statements of one \<open>CreateUser\<close> call that the driver
  fails. \<open>duplicateErr\<close> is the error it reports for a second row with the same primary
  key: the driver's own error, and \<open>gorm.ErrDuplicatedKey\<close> only where gorm is
  configured to translate driver errors, which \<open>NewDatabase\<close> does not do.
  \<open>newOrgID\<close> is the key the database assigns to the inserted organization.
\<close>

record createUserFaults =
  beginErr :: "error option"
  createOrgErr :: "error option"
  createUserErr :: "error option"
  appendErr :: "error option"
  commitUserErr :: "error option"
  duplicateErr :: error
  newOrgID :: nat

text \<open>
  An example: no failure, the driver's untranslated duplicate error, and the key 2 for
  an inserted row (the example tables hold the key 1).
\<close>

definition noCreateUserFaults :: createUserFaults where
  "noCreateUserFaults =
     \<lparr>beginErr = None, createOrgErr = None, createUserErr = None, appendErr = None,
      commitUserErr = None,
      duplicateErr = ErrDriver ''duplicate key value violates unique constraint'',
      newOrgID = 2\<rparr>"

text \<open>The only line \<open>CreateUser\<close> logs: the warning about the membership row.\<close>

datatype logLine = AssociationWarning error

text \<open>
  \<open>s[:n]\<close> on a string: the first \<open>n\<close> bytes, and a run-time panic when the string is
  shorter.
\<close>

datatype 'a outcome = Return 'a | Panic

definition sliceTo :: "string \<Rightarrow> nat \<Rightarrow> string outcome" where
  "sliceTo s n = (if n \<le> length s then Return (take n s) else Panic)"

text \<open>\<open>tx.Create(organization)\<close>: the row gets the key \<open>key\<close> and is appended.\<close>

definition createOrganization ::
  "error option \<Rightarrow> nat \<Rightarrow> Organization list \<Rightarrow> Organization
     \<Rightarrow> error + (Organization \<times> Organization list)" where
  "createOrganization fault key rows org =
     (case fault of
        Some e \<Rightarrow> Inl e
      | None \<Rightarrow> (let org' = org\<lparr>OrgID := key\<rparr> in Inr (org', rows @ [org'])))"

text \<open>\<open>tx.Create(user)\<close>: the email is the primary key.\<close>

definition createUserRow :: "error option \<Rightarrow> error \<Rightarrow> User list \<Rightarrow> User \<Rightarrow> error + User list" where
  "createUserRow fault dup rows user =
     (case fault of
        Some e \<Rightarrow> Inl e
      | None \<Rightarrow> if \<exists>u \<in> set rows. Email u = Email user then Inl dup else Inr (rows @ [user]))"

text \<open>
  The statements of \<open>CreateUser\<close> after \<open>Begin\<close>, which run with the deferred
  \<open>recover\<close> in place: the result is what the function returns (the error, the database
  and the log), or a panic.
\<close>

definition CreateUser_tx ::
  "createUserFaults \<Rightarrow> DB \<Rightarrow> string \<Rightarrow> string \<Rightarrow> (error option \<times> DB \<times> logLine list) outcome" where
  "CreateUser_tx f db email password =
     (case createOrganization (createOrgErr f) (newOrgID f) (organizations db)
             \<lparr>OrgID = 0, Name = email @ ''_org''\<rparr> of
        Inl err \<Rightarrow> Return (Some err, db, [])
      | Inr (organization, orgs') \<Rightarrow>
          (case sliceTo email 3 of
             Panic \<Rightarrow> Panic
           | Return prefix \<Rightarrow>
               (let user = \<lparr>Email = email, Password = password, Prefix = prefix,
                            ActiveOrganizationID = OrgID organization\<rparr> in
                case createUserRow (createUserErr f) (duplicateErr f) (users db) user of
                  Inl err \<Rightarrow>
                    Return (if err = ErrDuplicatedKey then Some ErrUserAlreadyExists else Some err,
                            db, [])
                | Inr users' \<Rightarrow>
                    (let (members', logs) =
                           (case appendErr f of
                              Some e \<Rightarrow> (organization_users db, [AssociationWarning e])
                            | None \<Rightarrow>
                                (organization_users db @ [(OrgID organization, email)], []))
                     in case commitUserErr f of
                          Some e \<Rightarrow> Return (Some e, db, logs)
                        | None \<Rightarrow>
                            Return (None,
                                    db\<lparr>users := users', organizations := orgs',
                                       organization_users := members'\<rparr>,
                                    logs)))))"

text \<open>
  \<open>CreateUser\<close>. A panic in the transaction is caught by the deferred function, which
  rolls back; the function then returns the zero value of its result, a \<open>nil\<close> error.
\<close>

definition CreateUser ::
  "createUserFaults \<Rightarrow> DB \<Rightarrow> string \<Rightarrow> string \<Rightarrow> error option \<times> DB \<times> logLine list" where
  "CreateUser f db email password =
     (if email = [] then (Some ErrEmailEmpty, db, [])
      else if password = [] then (Some ErrPasswordEmpty, db, [])
      else case beginErr f of
        Some e \<Rightarrow> (Some e, db, [])
      | None \<Rightarrow>
          (case CreateUser_tx f db email password of
             Panic \<Rightarrow> (None, db, [])
           | Return r \<Rightarrow> r))"

section \<open>The HTTP handlers (package handlers)\<close>

text \<open>
  A handler answers with a status code and a JSON body. \<open>InvalidInput\<close> is the body
  \<open>{"error": "Invalid input: " + err.Error()}\<close>, whose text comes from the binding
  library. A request field is given as it arrives: \<open>None\<close> when the body is not JSON or
  lacks the field; \<open>bindRequired\<close> is the \<open>binding:"required"\<close> rule, which also
  refuses an empty string.
\<close>

datatype body =
    ErrorBody string
  | InvalidInput
  | MessageBody string
  | TokenPairBody TokenResponse
  | TokenBody string

type_synonym response = "nat \<times> body"

definition bindRequired :: "string option \<Rightarrow> string option" where
  "bindRequired field = (case field of None \<Rightarrow> None | Some v \<Rightarrow> if v = [] then None else Some v)"

text \<open>
  \<open>RefreshToken\<close>. \<open>readable\<close> says whether \<open>c.GetRawData()\<close> succeeds; \<open>nowV\<close>,
  \<open>nowA\<close> and \<open>nowR\<close> are the clock readings of the validation and of the two
  generators; \<open>fault\<close> is the driver's failure of the user lookup. The handler's
  \<open>log.Printf\<close> calls are left out.
\<close>

definition RefreshToken ::
  "JWTLibrary \<Rightarrow> JWTConfig \<Rightarrow> error option \<Rightarrow> DB \<Rightarrow> int \<Rightarrow> int \<Rightarrow> int \<Rightarrow> bool
     \<Rightarrow> string option \<Rightarrow> response" where
  "RefreshToken lib cfg fault db nowV nowA nowR readable field =
     (if \<not> readable then (400, ErrorBody ''Failed to read request body'')
      else case bindRequired field of
        None \<Rightarrow> (400, InvalidInput)
      | Some req \<Rightarrow>
          (case ValidateRefreshToken lib cfg nowV req of
             (email, Some err) \<Rightarrow> (401, ErrorBody ''Invalid refresh token'')
           | (email, None) \<Rightarrow>
               (case GetUser fault db email of
                  Inl err \<Rightarrow>
                    if err = ErrUserNotFound then (401, ErrorBody ''User not found'')
                    else (500, ErrorBody ''Failed to validate user'')
                | Inr u \<Rightarrow>
                    (case GenerateTokenPair lib cfg nowA nowR email of
                       Inl err \<Rightarrow> (500, ErrorBody ''Failed to generate tokens'')
                     | Inr tokens \<Rightarrow> (200, TokenPairBody tokens)))))"

text \<open>
  The earlier handler (\<open>handlers.go\<close>), over the earlier JWT service: it validates with
  \<open>ValidateToken\<close> and answers with a new access token only.
\<close>

definition RefreshToken_basic ::
  "JWTLibrary \<Rightarrow> JWTConfig \<Rightarrow> error option \<Rightarrow> DB \<Rightarrow> int \<Rightarrow> int \<Rightarrow> string option \<Rightarrow> response" where
  "RefreshToken_basic lib cfg fault db nowV nowA field =
     (case bindRequired field of
        None \<Rightarrow> (400, InvalidInput)
      | Some req \<Rightarrow>
          (case ValidateToken_basic lib cfg nowV req of
             (email, Some err) \<Rightarrow> (401, ErrorBody ''Invalid refresh token'')
           | (email, None) \<Rightarrow>
               (case GetUser fault db email of
                  Inl err \<Rightarrow>
                    if err = ErrUserNotFound then (401, ErrorBody ''User not found'')
                    else (500, ErrorBody ''Failed to validate user'')
                | Inr u \<Rightarrow>
                    (case GenerateToken lib cfg nowA email (GetAccessTokenDuration cfg) of
                       Inl err \<Rightarrow> (500, ErrorBody ''Failed to generate token'')
                     | Inr newToken \<Rightarrow> (200, TokenBody newToken)))))"

subsection \<open>Password reset\<close>

text \<open>\<open>strconv.FormatInt(i, 10)\<close>\<close>

definition FormatInt10 :: "int \<Rightarrow> string" where
  "FormatInt10 i = (if i < 0 then CHR ''-'' # natDigits (nat (- i)) else natDigits (nat i))"

text \<open>
  \<open>h.db.Create(&resetToken)\<close>: the column \<open>token\<close> has a unique index; the row gets
  the key \<open>key\<close>.
\<close>

definition createResetToken ::
  "error option \<Rightarrow> error \<Rightarrow> nat \<Rightarrow> ResetToken list \<Rightarrow> ResetToken
     \<Rightarrow> error + ResetToken list" where
  "createResetToken fault dup key rows r =
     (case fault of
        Some e \<Rightarrow> Inl e
      | None \<Rightarrow>
          if \<exists>q \<in> set rows. Token q = Token r then Inl dup
          else Inr (rows @ [r\<lparr>TokenID := key\<rparr>]))"

text \<open>
  \<open>resetFaults\<close>: the statements of one password-reset call that the driver fails
  (the lookup, the insert, the password update, the delete), the error it reports for a
  duplicate token, and the key the database assigns to an inserted token.
\<close>

record resetFaults =
  lookupErr :: "error option"
  insertErr :: "error option"
  updateErr :: "error option"
  deleteErr :: "error option"
  duplicateTokenErr :: error
  newTokenID :: nat

text \<open>
  An example: no failure, the driver's untranslated duplicate error, and the key 2 for
  an inserted row (the example tables hold the key 1).
\<close>

definition noResetFaults :: resetFaults where
  "noResetFaults =
     \<lparr>lookupErr = None, insertErr = None, updateErr = None, deleteErr = None,
      duplicateTokenErr = ErrDriver ''duplicate key value violates unique constraint'',
      newTokenID = 2\<rparr>"

text \<open>
  \<open>RequestPasswordReset\<close>: \<open>nowT\<close> and \<open>nowE\<close> are the clock readings for the token's
  name and for its expiry (five minutes later).
\<close>

definition RequestPasswordReset ::
  "resetFaults \<Rightarrow> DB \<Rightarrow> int \<Rightarrow> int \<Rightarrow> string option \<Rightarrow> response \<times> DB" where
  "RequestPasswordReset f db nowT nowE username =
     (case bindRequired username of
        None \<Rightarrow> ((400, InvalidInput), db)
      | Some name \<Rightarrow>
          (case firstUser (lookupErr f) (users db) name of
             Inl err \<Rightarrow>
               if err = ErrRecordNotFound then ((404, ErrorBody ''User not found''), db)
               else ((500, ErrorBody ''Failed to process request''), db)
           | Inr user \<Rightarrow>
               (let resetToken =
                      \<lparr>TokenID = 0, Token = ''reset_'' @ FormatInt10 (Unix nowT),
                       ExpiredAt = nowE + 5 * 60 * 1000000000, UserEmail = Email user\<rparr> in
                case createResetToken (insertErr f) (duplicateTokenErr f) (newTokenID f)
                       (reset_tokens db) resetToken of
                  Inl err \<Rightarrow> ((500, ErrorBody ''Failed to create reset token''), db)
                | Inr rows \<Rightarrow>
                    ((200, MessageBody ''Password reset token sent''),
                     db\<lparr>reset_tokens := rows\<rparr>))))"

text \<open>
  \<open>SetNewPassword\<close>. The password update writes every user row with the token's email;
  the result of the final \<open>Delete\<close> is not checked, so a failed delete leaves the token.
\<close>

definition SetNewPassword ::
  "resetFaults \<Rightarrow> DB \<Rightarrow> int \<Rightarrow> string option \<Rightarrow> string option \<Rightarrow> response \<times> DB" where
  "SetNewPassword f db now password tokenField =
     (case (bindRequired password, bindRequired tokenField) of
        (Some pw, Some tk) \<Rightarrow>
          (case (case lookupErr f of
                   Some e \<Rightarrow> Inl e
                 | None \<Rightarrow>
                     (case find (\<lambda>r. Token r = tk \<and> now < ExpiredAt r) (reset_tokens db) of
                        None \<Rightarrow> Inl ErrRecordNotFound
                      | Some r \<Rightarrow> Inr r)) of
             Inl err \<Rightarrow>
               if err = ErrRecordNotFound then ((400, ErrorBody ''Invalid or expired token''), db)
               else ((500, ErrorBody ''Failed to validate token''), db)
           | Inr resetToken \<Rightarrow>
               (case updateErr f of
                  Some e \<Rightarrow> ((500, ErrorBody ''Failed to update password''), db)
                | None \<Rightarrow>
                    (let db1 = db\<lparr>users :=
                                  map (\<lambda>u. if Email u = UserEmail resetToken
                                           then u\<lparr>Password := pw\<rparr> else u) (users db)\<rparr>;
                         db2 = (case deleteErr f of
                                  Some e \<Rightarrow> db1
                                | None \<Rightarrow>
                                    db1\<lparr>reset_tokens :=
                                          filter (\<lambda>r. TokenID r \<noteq> TokenID resetToken)
                                            (reset_tokens db1)\<rparr>)
                     in ((200, MessageBody ''Password updated successfully''), db2))))
      | _ \<Rightarrow> ((400, InvalidInput), db))"

section \<open>The reset service (package reset)\<close>

text \<open>
  \<open>CreateResetToken\<close>; \<open>drawn\<close> is the 15-character string \<open>generateToken\<close> draws at
  random, and the second component of the result is the database after the call. The
  service returns \<open>errors.New("user not found")\<close> for an unknown user, modelled by
  \<open>ErrUserNotFound\<close>. The delete of the user's earlier tokens is not checked for an
  error.
\<close>

definition CreateResetToken ::
  "resetFaults \<Rightarrow> DB \<Rightarrow> int \<Rightarrow> string \<Rightarrow> string \<Rightarrow> (error + string) \<times> DB" where
  "CreateResetToken f db now drawn userEmail =
     (case firstUser (lookupErr f) (users db) userEmail of
        Inl err \<Rightarrow>
          if err = ErrRecordNotFound then (Inl ErrUserNotFound, db) else (Inl err, db)
      | Inr user \<Rightarrow>
          (let db1 = (case deleteErr f of
                        Some e \<Rightarrow> db
                      | None \<Rightarrow>
                          db\<lparr>reset_tokens :=
                               filter (\<lambda>r. UserEmail r \<noteq> userEmail) (reset_tokens db)\<rparr>);
               resetToken = \<lparr>TokenID = 0, Token = drawn,
                             ExpiredAt = now + 5 * 60 * 1000000000, UserEmail = userEmail\<rparr>
           in case createResetToken (insertErr f) (duplicateTokenErr f) (newTokenID f)
                     (reset_tokens db1) resetToken of
                Inl err \<Rightarrow> (Inl err, db1)
              | Inr rows \<Rightarrow> (Inr drawn, db1\<lparr>reset_tokens := rows\<rparr>)))"

text \<open>The reset tokens of a user that have not expired at \<open>now\<close>.\<close>

definition liveTokens :: "DB \<Rightarrow> string \<Rightarrow> int \<Rightarrow> ResetToken list" where
  "liveTokens db email now =
     filter (\<lambda>r. UserEmail r = email \<and> now < ExpiredAt r) (reset_tokens db)"

section \<open>Example states\<close>

definition allocatorDB :: DB where
  "allocatorDB =
     \<lparr>users = [], organizations = [], organization_users = [],
      backpack_id_next_numbers = [\<lparr>ID = 1, BackpackID = ''ABC'', Number = 41\<rparr>],
      reset_tokens = []\<rparr>"

definition exampleConfig :: JWTConfig where
  "exampleConfig =
     \<lparr>SecretKey = ''secret'', AccessTokenDuration = 15 * 60 * 1000000000,
      RefreshTokenDuration = 24 * 60 * 60 * 1000000000\<rparr>"

text \<open>
  Tokens of the Token Codec signed with \<open>secret\<close> for \<open>a@b.c\<close>, expiring at second
  100: one without a kind, one whose \<open>token_type\<close> is the number 5, an access token and
  a refresh token.
\<close>

definition legacyToken :: string where
  "legacyToken = ''++++++.secret++++++.sa@b.c+.-++++.n100''"

definition numericKindToken :: string where
  "numericKindToken = ''++++++.secret++++++.sa@b.c++.n5++++.n100''"

definition accessToken100 :: string where
  "accessToken100 = ''++++++.secret++++++.sa@b.c+++++++.saccess++++.n100''"

definition refreshToken100 :: string where
  "refreshToken100 = ''++++++.secret++++++.sa@b.c++++++++.srefresh++++.n100''"

definition usersDB :: DB where
  "usersDB =
     \<lparr>users = [\<lparr>Email = ''a@b.c'', Password = ''password123'', Prefix = ''a@b'',
                ActiveOrganizationID = 1\<rparr>],
      organizations = [\<lparr>OrgID = 1, Name = ''a@b.c_org''\<rparr>],
      organization_users = [(1, ''a@b.c'')],
      backpack_id_next_numbers = [],
      reset_tokens = []\<rparr>"

definition emptyDB :: DB where
  "emptyDB =
     \<lparr>users = [], organizations = [], organization_users = [],
      backpack_id_next_numbers = [], reset_tokens = []\<rparr>"

text \<open>
  The store after one password-reset request of \<open>a@b.c\<close> made at second 100: the token
  \<open>reset_100\<close>, which expires five minutes later.
\<close>

definition oneTokenDB :: DB where
  "oneTokenDB =
     usersDB\<lparr>reset_tokens :=
       [\<lparr>TokenID = 1, Token = ''reset_100'', ExpiredAt = 400000000000,
         UserEmail = ''a@b.c''\<rparr>]\<rparr>"

section \<open>Properties of the decimal formatting\<close>

lemma digit_val_digit_char: "digit_val (digit_char d) = d mod 10"
proof -
  have "d mod 10 < 10" by simp
  then have "d mod 10 = 0 \<or> d mod 10 = 1 \<or> d mod 10 = 2 \<or> d mod 10 = 3 \<or> d mod 10 = 4
      \<or> d mod 10 = 5 \<or> d mod 10 = 6 \<or> d mod 10 = 7 \<or> d mod 10 = 8 \<or> d mod 10 = 9"
    by arith
  then show ?thesis
    unfolding digit_val_def digit_char_def by (elim disjE) simp_all
qed

lemma digitsValue_snoc: "digitsValue (s @ [c]) = 10 * digitsValue s + digit_val c"
  by (simp add: digitsValue_def)

lemma digitsValue_natDigits: "digitsValue (natDigits n) = n"
proof (induction n rule: natDigits.induct)
  case (1 n)
  show ?case
  proof (cases "n < 10")
    case True
    then show ?thesis
      by (subst natDigits.simps) (simp add: digitsValue_def digit_val_digit_char)
  next
    case False
    with 1 have "digitsValue (natDigits (n div 10)) = n div 10" by simp
    with False show ?thesis
      by (subst natDigits.simps) (simp add: digitsValue_snoc digit_val_digit_char)
  qed
qed

lemma digitsValue_replicate_zero: "digitsValue (replicate k (CHR ''0'') @ s) = digitsValue s"
  by (induction k) (simp_all add: digitsValue_def digit_val_def)

lemma digitsValue_zeroPad: "digitsValue (zeroPad w s) = digitsValue s"
  by (simp add: zeroPad_def digitsValue_replicate_zero)

lemma length_natDigits_le: "1 \<le> k \<Longrightarrow> n < 10 ^ k \<Longrightarrow> length (natDigits n) \<le> k"
proof (induction n arbitrary: k rule: natDigits.induct)
  case (1 n)
  show ?case
  proof (cases "n < 10")
    case True
    with 1(2) show ?thesis by (subst natDigits.simps) simp
  next
    case False
    from False 1(3) have k2: "2 \<le> k" by (cases k; cases "k - 1") auto
    then obtain j where j: "k = Suc j" "1 \<le> j" by (cases k) auto
    with 1(3) have "n div 10 < 10 ^ j" by (simp add: less_mult_imp_div_less mult.commute)
    with 1(1)[OF False j(2)] have "length (natDigits (n div 10)) \<le> j" by simp
    with False j show ?thesis by (subst natDigits.simps) simp
  qed
qed

lemma length_natDigits_gt: "10 ^ k \<le> n \<Longrightarrow> k < length (natDigits n)"
proof (induction n arbitrary: k rule: natDigits.induct)
  case (1 n)
  show ?case
  proof (cases "n < 10")
    case True
    have "k = 0"
    proof (rule ccontr)
      assume "k \<noteq> 0"
      then have "(10::nat) ^ 1 \<le> 10 ^ k" by (intro power_increasing) auto
      with True 1(2) show False by simp
    qed
    with True show ?thesis by (subst natDigits.simps) simp
  next
    case False
    show ?thesis
    proof (cases k)
      case 0
      with False show ?thesis by (subst natDigits.simps) simp
    next
      case (Suc j)
      with 1(2) have "10 ^ j \<le> n div 10" by (simp add: less_eq_div_iff_mult_less_eq mult.commute)
      with 1(1)[OF False] have "j < length (natDigits (n div 10))" by simp
      with False Suc show ?thesis by (subst natDigits.simps) simp
    qed
  qed
qed

text \<open>Rules that evaluate the formatting of a numeral.\<close>

lemma replicate_numeral: "replicate (numeral k) x = x # replicate (pred_numeral k) x"
  by (simp add: numeral_eq_Suc)

lemmas format_eval = Sprintf04d_def zeroPad_def natDigits.simps digit_char_def replicate_numeral

section \<open>Properties of the ID allocator\<close>

lemma find_map_replace:
  assumes "find (\<lambda>r. BackpackID r = p) rows = Some r0" "BackpackID x = p" "ID x = ID r0"
  shows "find (\<lambda>r. BackpackID r = p) (map (\<lambda>q. if ID q = ID x then x else q) rows) = Some x"
  using assms by (induction rows) (auto split: if_splits)

lemma find_append_new:
  assumes "find P rows = None" "P x"
  shows "find P (rows @ [x]) = Some x"
  using assms by (induction rows) (auto split: if_splits)

lemma getNextID_first:
  assumes "findErr f = None" "createErr f = None" "commitErr f = None"
    and "storedNumber db prefix = None"
  shows "fst (getNextID f db prefix) = Inr ''0001''"
    and "storedNumber (snd (getNextID f db prefix)) prefix = Some 1"
proof -
  from assms(4) have nf: "find (\<lambda>r. BackpackID r = prefix) (backpack_id_next_numbers db) = None"
    by (simp add: storedNumber_def)
  then have nex: "\<not> (\<exists>q \<in> set (backpack_id_next_numbers db). BackpackID q = prefix)"
    by (simp add: find_None_iff)
  have fmt: "Sprintf04d 1 = ''0001''"
    by code_simp
  show "fst (getNextID f db prefix) = Inr ''0001''"
    using assms(1-3) nf nex
    by (simp add: getNextID_def firstNextNumber_def createNextNumber_def commitNextID_def Let_def fmt)
  show "storedNumber (snd (getNextID f db prefix)) prefix = Some 1"
    using assms(1-3) nf nex
    by (simp add: getNextID_def firstNextNumber_def createNextNumber_def commitNextID_def Let_def
        storedNumber_def find_append_new)
qed

lemma getNextID_next:
  assumes "findErr f = None" "saveErr f = None" "commitErr f = None"
    and "storedNumber db prefix = Some n"
  shows "fst (getNextID f db prefix) = Inr (Sprintf04d (sint (n + 1)))"
    and "storedNumber (snd (getNextID f db prefix)) prefix = Some (n + 1)"
proof -
  from assms(4) obtain r where
    r: "find (\<lambda>r. BackpackID r = prefix) (backpack_id_next_numbers db) = Some r" "Number r = n"
    by (auto simp: storedNumber_def)
  then have bp: "BackpackID r = prefix" by (auto simp: find_Some_iff)
  have rep: "find (\<lambda>q. BackpackID q = prefix)
       (map (\<lambda>q. if ID q = ID r then r\<lparr>Number := n + 1\<rparr> else q) (backpack_id_next_numbers db))
     = Some (r\<lparr>Number := n + 1\<rparr>)"
    using find_map_replace[OF r(1), of "r\<lparr>Number := n + 1\<rparr>"] bp by simp
  show "fst (getNextID f db prefix) = Inr (Sprintf04d (sint (n + 1)))"
    using assms(1-3) r
    by (simp add: getNextID_def firstNextNumber_def saveNextNumber_def commitNextID_def Let_def)
  show "storedNumber (snd (getNextID f db prefix)) prefix = Some (n + 1)"
    using assms(1-3) r rep
    by (simp add: getNextID_def firstNextNumber_def saveNextNumber_def commitNextID_def Let_def
        storedNumber_def)
qed

lemma Sprintf04d_nonneg:
  assumes "0 \<le> k"
  shows "digitsValue (Sprintf04d k) = nat k"
    and "k < 10000 \<Longrightarrow> length (Sprintf04d k) = 4"
    and "10000 \<le> k \<Longrightarrow> Sprintf04d k = natDigits (nat k) \<and> 4 < length (Sprintf04d k)"
proof -
  from assms have S: "Sprintf04d k = zeroPad 4 (natDigits (nat k))"
    by (simp add: Sprintf04d_def)
  show "digitsValue (Sprintf04d k) = nat k"
    by (simp add: S digitsValue_zeroPad digitsValue_natDigits)
  {
    assume "k < 10000"
    with assms have "nat k < 10 ^ 4" by simp
    then have "length (natDigits (nat k)) \<le> 4" by (intro length_natDigits_le) auto
    then show "length (Sprintf04d k) = 4" by (simp add: S zeroPad_def)
  }
  {
    assume "10000 \<le> k"
    then have "10 ^ 4 \<le> nat k" by simp
    then have "4 < length (natDigits (nat k))" by (rule length_natDigits_gt)
    then show "Sprintf04d k = natDigits (nat k) \<and> 4 < length (Sprintf04d k)"
      by (simp add: S zeroPad_def)
  }
qed

lemma sint_succ: "sint (n :: 64 word) \<noteq> 2 ^ 63 - 1 \<Longrightarrow> sint (n + 1) = sint n + 1"
proof -
  have "- (2 ^ 63) \<le> sint n" using sint_ge[of n] by simp
  moreover have "sint n < 2 ^ 63" using sint_lt[of n] by simp
  moreover assume "sint n \<noteq> 2 ^ 63 - 1"
  ultimately have "- (2 ^ 63) \<le> sint n + 1" "sint n + 1 < 2 ^ 63" by auto
  then have "signed_take_bit 63 (sint n + 1) = sint n + 1"
    by (intro signed_take_bit_int_eq_self) auto
  then show ?thesis by (simp add: sint_word_ariths)
qed

lemma natDigits_digits: "set (natDigits n) \<subseteq> set ''0123456789''"
proof (induction n rule: natDigits.induct)
  case (1 n)
  have d: "\<And>d. digit_char d \<in> set ''0123456789''"
    unfolding digit_char_def by (rule nth_mem) simp
  show ?case
  proof (cases "n < 10")
    case True
    then show ?thesis using d[of n] by (subst natDigits.simps) simp
  next
    case False
    with 1 have "set (natDigits (n div 10)) \<subseteq> set ''0123456789''" by simp
    with False show ?thesis using d[of "n mod 10"] by (subst natDigits.simps) simp
  qed
qed

lemma Sprintf04d_digits: "0 \<le> k \<Longrightarrow> set (Sprintf04d k) \<subseteq> set ''0123456789''"
  using natDigits_digits[of "nat k"] by (auto simp: Sprintf04d_def zeroPad_def)

text \<open>
  Claim C1. With no driver failure, the first allocation for a prefix (no counter row
  yet) returns \<open>0001\<close> and stores the counter 1; an allocation for a prefix whose
  stored counter is \<open>n\<close> returns the formatting of \<open>n + 1\<close> and stores \<open>n + 1\<close>
  (Go's \<open>int\<close> addition, which is the integer successor below the largest value).
  The formatting of a non-negative number consists of decimal digits that read back as
  the number; it is exactly 4 characters long below 10000, and from 10000 on it is the
  plain decimal rendering, longer than 4 characters: nothing is rejected or capped.
\<close>

theorem getNextID_sequence:
  assumes "findErr f = None" "createErr f = None" "saveErr f = None" "commitErr f = None"
  shows "(case storedNumber db prefix of
            None \<Rightarrow>
              fst (getNextID f db prefix) = Inr ''0001'' \<and>
              storedNumber (snd (getNextID f db prefix)) prefix = Some 1
          | Some n \<Rightarrow>
              fst (getNextID f db prefix) = Inr (Sprintf04d (sint (n + 1))) \<and>
              storedNumber (snd (getNextID f db prefix)) prefix = Some (n + 1) \<and>
              (sint n \<noteq> 2 ^ 63 - 1 \<longrightarrow> sint (n + 1) = sint n + 1)) \<and>
         (\<forall>k\<ge>0. set (Sprintf04d k) \<subseteq> set ''0123456789'' \<and>
                digitsValue (Sprintf04d k) = nat k \<and>
                (k < 10000 \<longrightarrow> length (Sprintf04d k) = 4) \<and>
                (10000 \<le> k \<longrightarrow> Sprintf04d k = natDigits (nat k) \<and> 4 < length (Sprintf04d k)))"
proof (intro conjI)
  show "case storedNumber db prefix of
            None \<Rightarrow>
              fst (getNextID f db prefix) = Inr ''0001'' \<and>
              storedNumber (snd (getNextID f db prefix)) prefix = Some 1
          | Some n \<Rightarrow>
              fst (getNextID f db prefix) = Inr (Sprintf04d (sint (n + 1))) \<and>
              storedNumber (snd (getNextID f db prefix)) prefix = Some (n + 1) \<and>
              (sint n \<noteq> 2 ^ 63 - 1 \<longrightarrow> sint (n + 1) = sint n + 1)"
  proof (cases "storedNumber db prefix")
    case None
    with assms show ?thesis by (simp add: getNextID_first)
  next
    case (Some n)
    with assms show ?thesis by (simp add: getNextID_next sint_succ)
  qed
  show "\<forall>k\<ge>0. set (Sprintf04d k) \<subseteq> set ''0123456789'' \<and>
                digitsValue (Sprintf04d k) = nat k \<and>
                (k < 10000 \<longrightarrow> length (Sprintf04d k) = 4) \<and>
                (10000 \<le> k \<longrightarrow> Sprintf04d k = natDigits (nat k) \<and> 4 < length (Sprintf04d k))"
    using Sprintf04d_nonneg Sprintf04d_digits by blast
qed

theorem getNextID_sequence_witness:
  "fst (getNextID noNextIDFaults allocatorDB ''XYZ'') = Inr ''0001'' \<and>
   storedNumber (snd (getNextID noNextIDFaults allocatorDB ''XYZ'')) ''XYZ'' = Some 1 \<and>
   fst (getNextID noNextIDFaults allocatorDB ''ABC'') = Inr ''0042'' \<and>
   storedNumber (snd (getNextID noNextIDFaults allocatorDB ''ABC'')) ''ABC'' = Some 42 \<and>
   length (Sprintf04d 42) = 4 \<and>
   Sprintf04d 12345 = ''12345''"
proof -
  have f: "findErr noNextIDFaults = None" "createErr noNextIDFaults = None"
    "saveErr noNextIDFaults = None" "commitErr noNextIDFaults = None"
    by (simp_all add: noNextIDFaults_def)
  have abc: "storedNumber allocatorDB ''ABC'' = Some 41"
    by (simp add: storedNumber_def allocatorDB_def)
  have xyz: "storedNumber allocatorDB ''XYZ'' = None"
    by (simp add: storedNumber_def allocatorDB_def)
  have s42: "Sprintf04d 42 = ''0042''"
    by (simp add: format_eval)
  have d12345: "natDigits 12345 = ''12345''"
    by (simp add: format_eval)
  note a = getNextID_sequence[OF f, of allocatorDB "''ABC''"]
  note x = getNextID_sequence[OF f, of allocatorDB "''XYZ''"]
  have "fst (getNextID noNextIDFaults allocatorDB ''ABC'') = Inr ''0042'' \<and>
    storedNumber (snd (getNextID noNextIDFaults allocatorDB ''ABC'')) ''ABC'' = Some 42"
    using a[THEN conjunct1] by (simp add: abc s42)
  moreover have "fst (getNextID noNextIDFaults allocatorDB ''XYZ'') = Inr ''0001'' \<and>
    storedNumber (snd (getNextID noNextIDFaults allocatorDB ''XYZ'')) ''XYZ'' = Some 1"
    using x[THEN conjunct1] by (simp add: xyz)
  moreover have "length (Sprintf04d 42) = 4"
    using a[THEN conjunct2, rule_format, of 42] by simp
  moreover have "Sprintf04d 12345 = ''12345''"
    using a[THEN conjunct2, rule_format, of 12345] by (simp add: d12345)
  ultimately show ?thesis by blast
qed

section \<open>Properties of the Token Codec\<close>

lemma unframe_frame: "unframe (frame s @ rest) = Some (s, rest)"
proof -
  have "takeWhile (\<lambda>c. c = CHR ''+'') (replicate (length s) (CHR ''+'') @ CHR ''.'' # s @ rest)
      = replicate (length s) (CHR ''+'')"
    by (subst takeWhile_append2) auto
  then show ?thesis
    by (simp add: unframe_def frame_def)
qed

lemma decodeValue_encodeValue: "decodeValue (encodeValue v) = Some v"
  by (cases v rule: encodeValue.cases)
     (auto simp: decodeValue_def digitsValue_natDigits)

lemma fieldClaims_self:
  assumes "dom c \<subseteq> {''email'', ''token_type'', ''exp''}"
  shows "fieldClaims (c ''email'') (c ''token_type'') (c ''exp'') = c"
proof
  fix k
  show "fieldClaims (c ''email'') (c ''token_type'') (c ''exp'') k = c k"
  proof (cases "k \<in> {''email'', ''token_type'', ''exp''}")
    case True
    then show ?thesis by (auto simp: fieldClaims_def)
  next
    case False
    with assms have "c k = None" by blast
    with False show ?thesis by (auto simp: fieldClaims_def)
  qed
qed

lemma Decode_Encode_fields:
  assumes "Encode key c = Inr tokenString"
  shows "Decode tokenString key' now =
     (if key \<noteq> key' then
        \<lparr>parseErr = Some ErrBadSignature, Valid = False,
         Claims = Some (fieldClaims (c ''email'') (c ''token_type'') (c ''exp''))\<rparr>
      else if expiredAt (c ''exp'') now then
        \<lparr>parseErr = Some ErrExpired, Valid = False,
         Claims = Some (fieldClaims (c ''email'') (c ''token_type'') (c ''exp''))\<rparr>
      else \<lparr>parseErr = None, Valid = True,
         Claims = Some (fieldClaims (c ''email'') (c ''token_type'') (c ''exp''))\<rparr>)"
proof -
  from assms have t: "tokenString = frame key @ (frame (encodeValue (c ''email''))
            @ (frame (encodeValue (c ''token_type''))
            @ (frame (encodeValue (c ''exp'')) @ [])))"
    by (simp add: Encode_def)
  show ?thesis
    unfolding t Decode_def
    by (simp only: unframe_frame option.case prod.case decodeValue_encodeValue) simp
qed

section \<open>Properties of the JWT service\<close>

lemma ValidateToken_parsed:
  assumes "Parse lib tokenString (SecretKey cfg) now = \<lparr>parseErr = None, Valid = True, Claims = Some claims\<rparr>"
  shows "ValidateToken lib cfg now tokenString =
     (let (tokenType, ok) = asString (claims ''token_type'') in
      if ok \<and> tokenType \<noteq> ''access'' then ([], Some ErrInvalidKey)
      else (let (email, ok) = asString (claims ''email'') in
            if \<not> ok then ([], Some ErrInvalidKey) else (email, None)))"
  using assms by (simp add: ValidateToken_def)

lemma ValidateRefreshToken_parsed:
  assumes "Parse lib tokenString (SecretKey cfg) now = \<lparr>parseErr = None, Valid = True, Claims = Some claims\<rparr>"
  shows "ValidateRefreshToken lib cfg now tokenString =
     (let (tokenType, ok) = asString (claims ''token_type'') in
      if ok \<and> tokenType \<noteq> ''refresh'' then ([], Some ErrInvalidKey)
      else (let (email, ok) = asString (claims ''email'') in
            if \<not> ok then ([], Some ErrInvalidKey) else (email, None)))"
  using assms by (simp add: ValidateRefreshToken_def)

lemma asString_not_string: "(\<forall>k. v \<noteq> Some (VString k)) \<Longrightarrow> asString v = ([], False)"
  by (cases v rule: asString.cases) auto

text \<open>
  What the validators do with the kind of a token that the library parses without error
  (valid signature, unexpired): \<open>ValidateToken\<close> rejects it with \<open>ErrInvalidKey\<close>
  when its \<open>token_type\<close> is a string other than \<open>access\<close>, and
  \<open>ValidateRefreshToken\<close> when it is a string other than \<open>refresh\<close>; a token without
  \<open>token_type\<close> whose \<open>email\<close> is a string is accepted by both, which return the
  email.
\<close>

lemma token_kind_discrimination:
  assumes "Parse lib tokenString (SecretKey cfg) now =
             \<lparr>parseErr = None, Valid = True, Claims = Some claims\<rparr>"
  shows "(\<forall>k. claims ''token_type'' = Some (VString k) \<and> k \<noteq> ''access'' \<longrightarrow>
              ValidateToken lib cfg now tokenString = ([], Some ErrInvalidKey)) \<and>
         (\<forall>k. claims ''token_type'' = Some (VString k) \<and> k \<noteq> ''refresh'' \<longrightarrow>
              ValidateRefreshToken lib cfg now tokenString = ([], Some ErrInvalidKey)) \<and>
         (\<forall>e. claims ''token_type'' = None \<and> claims ''email'' = Some (VString e) \<longrightarrow>
              ValidateToken lib cfg now tokenString = (e, None) \<and>
              ValidateRefreshToken lib cfg now tokenString = (e, None))"
  by (auto simp: ValidateToken_parsed[OF assms] ValidateRefreshToken_parsed[OF assms]
        asString_not_string)

lemma Encode_legacyToken:
  "Encode ''secret'' [''email'' \<mapsto> VString ''a@b.c'', ''exp'' \<mapsto> VNumber 100] = Inr legacyToken"
  by (simp add: Encode_def legacyToken_def frame_def natDigits.simps digit_char_def)

lemma Encode_numericKindToken:
  "Encode ''secret'' [''email'' \<mapsto> VString ''a@b.c'', ''token_type'' \<mapsto> VNumber 5,
      ''exp'' \<mapsto> VNumber 100] = Inr numericKindToken"
  by (simp add: Encode_def numericKindToken_def frame_def natDigits.simps digit_char_def)

lemma Encode_accessToken100:
  "Encode ''secret'' [''email'' \<mapsto> VString ''a@b.c'', ''token_type'' \<mapsto> VString ''access'',
      ''exp'' \<mapsto> VNumber 100] = Inr accessToken100"
  by (simp add: Encode_def accessToken100_def frame_def natDigits.simps digit_char_def)

lemma Encode_refreshToken100:
  "Encode ''secret'' [''email'' \<mapsto> VString ''a@b.c'', ''token_type'' \<mapsto> VString ''refresh'',
      ''exp'' \<mapsto> VNumber 100] = Inr refreshToken100"
  by (simp add: Encode_def refreshToken100_def frame_def natDigits.simps digit_char_def)

lemma Decode_numericKindToken:
  "Decode numericKindToken ''secret'' 0 =
     \<lparr>parseErr = None, Valid = True,
      Claims = Some (fieldClaims (Some (VString ''a@b.c'')) (Some (VNumber 5)) (Some (VNumber 100)))\<rparr>"
  by (simp add: Decode_Encode_fields[OF Encode_numericKindToken] expiredAt_def)

lemma Parse_numericKindToken:
  "Parse specCodec numericKindToken (SecretKey exampleConfig) 0 =
     \<lparr>parseErr = None, Valid = True,
      Claims = Some (fieldClaims (Some (VString ''a@b.c'')) (Some (VNumber 5)) (Some (VNumber 100)))\<rparr>"
  using Decode_numericKindToken by (simp add: specCodec_def exampleConfig_def)

text \<open>
  Claim C2 fails on the code for a kind that is not a string. By their comments the
  validators exempt only tokens without \<open>token_type\<close>; but the checked assertion
  \<open>claims["token_type"].(string)\<close> gives \<open>ok = false\<close> for a kind of another type as it
  does for a missing one. So whatever the signing library, a token that it parses without
  error (valid signature, unexpired) and whose \<open>token_type\<close> is present but is not a
  string, hence neither \<open>access\<close> nor \<open>refresh\<close>, is accepted by both validators,
  which return its email.
\<close>

theorem token_kind_nonstring_accepted:
  assumes "Parse lib tokenString (SecretKey cfg) now =
             \<lparr>parseErr = None, Valid = True, Claims = Some claims\<rparr>"
    and "claims ''token_type'' = Some kind"
    and "\<forall>k. kind \<noteq> VString k"
    and "claims ''email'' = Some (VString email)"
  shows "ValidateToken lib cfg now tokenString = (email, None) \<and>
         ValidateRefreshToken lib cfg now tokenString = (email, None)"
proof -
  from assms(2,3) have "asString (claims ''token_type'') = ([], False)"
    by (simp add: asString_not_string)
  with assms(4) show ?thesis
    by (simp add: ValidateToken_parsed[OF assms(1)] ValidateRefreshToken_parsed[OF assms(1)])
qed

text \<open>
  The token signed with the secret whose \<open>token_type\<close> is the number 5: both validators
  accept it.
\<close>

theorem token_kind_nonstring_accepted_witness:
  "Encode (SecretKey exampleConfig)
     [''email'' \<mapsto> VString ''a@b.c'', ''token_type'' \<mapsto> VNumber 5, ''exp'' \<mapsto> VNumber 100]
     = Inr numericKindToken \<and>
   ValidateToken specCodec exampleConfig 0 numericKindToken = (''a@b.c'', None) \<and>
   ValidateRefreshToken specCodec exampleConfig 0 numericKindToken = (''a@b.c'', None)"
proof -
  have "ValidateToken specCodec exampleConfig 0 numericKindToken = (''a@b.c'', None) \<and>
        ValidateRefreshToken specCodec exampleConfig 0 numericKindToken = (''a@b.c'', None)"
    by (rule token_kind_nonstring_accepted[OF Parse_numericKindToken, of "VNumber 5"])
       (simp_all add: fieldClaims_def)
  then show ?thesis
    using Encode_numericKindToken by (simp add: exampleConfig_def)
qed

text \<open>The rule at tokens of the three kinds the service issues.\<close>

lemma token_kind_discrimination_examples:
  "ValidateToken specCodec exampleConfig 0 refreshToken100 = ([], Some ErrInvalidKey) \<and>
   ValidateRefreshToken specCodec exampleConfig 0 accessToken100 = ([], Some ErrInvalidKey) \<and>
   ValidateToken specCodec exampleConfig 0 legacyToken = (''a@b.c'', None) \<and>
   ValidateRefreshToken specCodec exampleConfig 0 legacyToken = (''a@b.c'', None)"
proof -
  let ?r = "fieldClaims (Some (VString ''a@b.c'')) (Some (VString ''refresh'')) (Some (VNumber 100))"
  let ?a = "fieldClaims (Some (VString ''a@b.c'')) (Some (VString ''access'')) (Some (VNumber 100))"
  let ?l = "fieldClaims (Some (VString ''a@b.c'')) None (Some (VNumber 100))"
  have r: "Parse specCodec refreshToken100 (SecretKey exampleConfig) 0 =
      \<lparr>parseErr = None, Valid = True, Claims = Some ?r\<rparr>"
    by (simp add: specCodec_def exampleConfig_def Decode_Encode_fields[OF Encode_refreshToken100]
        expiredAt_def)
  have a: "Parse specCodec accessToken100 (SecretKey exampleConfig) 0 =
      \<lparr>parseErr = None, Valid = True, Claims = Some ?a\<rparr>"
    by (simp add: specCodec_def exampleConfig_def Decode_Encode_fields[OF Encode_accessToken100]
        expiredAt_def)
  have l: "Parse specCodec legacyToken (SecretKey exampleConfig) 0 =
      \<lparr>parseErr = None, Valid = True, Claims = Some ?l\<rparr>"
    by (simp add: specCodec_def exampleConfig_def Decode_Encode_fields[OF Encode_legacyToken]
        expiredAt_def)
  have "ValidateToken specCodec exampleConfig 0 refreshToken100 = ([], Some ErrInvalidKey)"
    using token_kind_discrimination[OF r, THEN conjunct1, rule_format, of "''refresh''"]
    by (simp add: fieldClaims_def)
  moreover have "ValidateRefreshToken specCodec exampleConfig 0 accessToken100 = ([], Some ErrInvalidKey)"
    using token_kind_discrimination[OF a, THEN conjunct2, THEN conjunct1, rule_format, of "''access''"]
    by (simp add: fieldClaims_def)
  moreover have "ValidateToken specCodec exampleConfig 0 legacyToken = (''a@b.c'', None) \<and>
      ValidateRefreshToken specCodec exampleConfig 0 legacyToken = (''a@b.c'', None)"
    using token_kind_discrimination[OF l, THEN conjunct2, THEN conjunct2, rule_format, of "''a@b.c''"]
    by (simp add: fieldClaims_def)
  ultimately show ?thesis by blast
qed

section \<open>Properties of the refresh handlers\<close>

lemma RefreshToken_ok:
  assumes "RefreshToken lib cfg fault db nowV nowA nowR readable field = (200, b)"
  shows "\<exists>req email u access refresh.
           readable \<and> bindRequired field = Some req \<and>
           ValidateRefreshToken lib cfg nowV req = (email, None) \<and>
           GetUser fault db email = Inr u \<and>
           GenerateAccessToken lib cfg nowA email = Inr access \<and>
           GenerateRefreshToken lib cfg nowR email = Inr refresh \<and>
           b = TokenPairBody \<lparr>token = access, refresh_token = refresh\<rparr>"
  using assms
  by (auto simp: RefreshToken_def GenerateTokenPair_def
      split: if_splits option.splits sum.splits prod.splits)

lemma RefreshToken_basic_ok:
  assumes "RefreshToken_basic lib cfg fault db nowV nowA field = (200, b)"
  shows "\<exists>req email u newToken.
           bindRequired field = Some req \<and>
           ValidateToken_basic lib cfg nowV req = (email, None) \<and>
           GetUser fault db email = Inr u \<and>
           GenerateToken lib cfg nowA email (AccessTokenDuration cfg) = Inr newToken \<and>
           b = TokenBody newToken"
  using assms
  by (auto simp: RefreshToken_basic_def GetAccessTokenDuration_def
      split: if_splits option.splits sum.splits prod.splits)

lemma GetUser_Inr:
  "GetUser fault db email = Inr u \<Longrightarrow> find (\<lambda>u. Email u = email) (users db) = Some u"
  by (auto simp: GetUser_def firstUser_def split: option.splits if_splits sum.splits)

lemma GetUser_gone:
  "find (\<lambda>u. Email u = email) (users db) = None \<Longrightarrow> GetUser None db email = Inl ErrUserNotFound"
  by (simp add: GetUser_def firstUser_def)

text \<open>
  Claim C3, as amended. Every successful call (status 200) of the handler
  \<open>RefreshToken\<close> has validated the presented token with \<open>ValidateRefreshToken\<close> and
  answers with a pair made of a newly generated access token and a newly generated
  refresh token for the token's email. Every successful call of the earlier handler
  (\<open>handlers.go\<close>) has validated the token with its \<open>ValidateToken\<close> and answers with a
  newly generated access token only.
\<close>

theorem RefreshToken_success:
  "(RefreshToken lib cfg fault db nowV nowA nowR readable field = (200, b) \<longrightarrow>
      (\<exists>req email access refresh.
          bindRequired field = Some req \<and>
          ValidateRefreshToken lib cfg nowV req = (email, None) \<and>
          GenerateAccessToken lib cfg nowA email = Inr access \<and>
          GenerateRefreshToken lib cfg nowR email = Inr refresh \<and>
          b = TokenPairBody \<lparr>token = access, refresh_token = refresh\<rparr>)) \<and>
   (RefreshToken_basic lib cfg fault db nowV nowA field = (200, b') \<longrightarrow>
      (\<exists>req email newToken.
          bindRequired field = Some req \<and>
          ValidateToken_basic lib cfg nowV req = (email, None) \<and>
          GenerateToken lib cfg nowA email (AccessTokenDuration cfg) = Inr newToken \<and>
          b' = TokenBody newToken))"
proof (intro conjI impI)
  assume "RefreshToken lib cfg fault db nowV nowA nowR readable field = (200, b)"
  from RefreshToken_ok[OF this]
  show "\<exists>req email access refresh.
          bindRequired field = Some req \<and>
          ValidateRefreshToken lib cfg nowV req = (email, None) \<and>
          GenerateAccessToken lib cfg nowA email = Inr access \<and>
          GenerateRefreshToken lib cfg nowR email = Inr refresh \<and>
          b = TokenPairBody \<lparr>token = access, refresh_token = refresh\<rparr>"
    by blast
next
  assume "RefreshToken_basic lib cfg fault db nowV nowA field = (200, b')"
  from RefreshToken_basic_ok[OF this]
  show "\<exists>req email newToken.
          bindRequired field = Some req \<and>
          ValidateToken_basic lib cfg nowV req = (email, None) \<and>
          GenerateToken lib cfg nowA email (AccessTokenDuration cfg) = Inr newToken \<and>
          b' = TokenBody newToken"
    by blast
qed

lemma Parse_refreshToken100:
  "Parse specCodec refreshToken100 (SecretKey exampleConfig) 0 =
     \<lparr>parseErr = None, Valid = True,
      Claims = Some (fieldClaims (Some (VString ''a@b.c'')) (Some (VString ''refresh''))
                      (Some (VNumber 100)))\<rparr>"
  by (simp add: specCodec_def exampleConfig_def Decode_Encode_fields[OF Encode_refreshToken100]
      expiredAt_def)

lemma Parse_legacyToken:
  "Parse specCodec legacyToken (SecretKey exampleConfig) 0 =
     \<lparr>parseErr = None, Valid = True,
      Claims = Some (fieldClaims (Some (VString ''a@b.c'')) None (Some (VNumber 100)))\<rparr>"
  by (simp add: specCodec_def exampleConfig_def Decode_Encode_fields[OF Encode_legacyToken]
      expiredAt_def)

lemma ValidateRefreshToken_example:
  "ValidateRefreshToken specCodec exampleConfig 0 refreshToken100 = (''a@b.c'', None)"
  by (simp add: ValidateRefreshToken_parsed[OF Parse_refreshToken100] fieldClaims_def)

lemma ValidateToken_basic_example:
  "ValidateToken_basic specCodec exampleConfig 0 legacyToken = (''a@b.c'', None)"
  using Parse_legacyToken by (simp add: ValidateToken_basic_def fieldClaims_def)

lemmas token_eval =
  specCodec_def exampleConfig_def Encode_def frame_def natDigits.simps digit_char_def Unix_def

lemma GenerateAccessToken_example:
  "GenerateAccessToken specCodec exampleConfig 0 ''a@b.c'' =
     Inr ''++++++.secret++++++.sa@b.c+++++++.saccess++++.n900''"
  by (simp add: GenerateAccessToken_def token_eval)

lemma GenerateRefreshToken_example:
  "GenerateRefreshToken specCodec exampleConfig 0 ''a@b.c'' =
     Inr ''++++++.secret++++++.sa@b.c++++++++.srefresh++++++.n86400''"
  by (simp add: GenerateRefreshToken_def token_eval)

lemma GenerateToken_example:
  "GenerateToken specCodec exampleConfig 0 ''a@b.c'' (AccessTokenDuration exampleConfig) =
     Inr ''++++++.secret++++++.sa@b.c+.-++++.n900''"
  by (simp add: GenerateToken_def token_eval)

lemma GetUser_example:
  "GetUser None usersDB ''a@b.c'' =
     Inr \<lparr>Email = ''a@b.c'', Password = ''password123'', Prefix = ''a@b'',
          ActiveOrganizationID = 1\<rparr>"
  by (simp add: GetUser_def firstUser_def usersDB_def)

lemma RefreshToken_example:
  "RefreshToken specCodec exampleConfig None usersDB 0 0 0 True (Some refreshToken100) =
     (200, TokenPairBody
        \<lparr>token = ''++++++.secret++++++.sa@b.c+++++++.saccess++++.n900'',
         refresh_token = ''++++++.secret++++++.sa@b.c++++++++.srefresh++++++.n86400''\<rparr>)"
proof -
  have "bindRequired (Some refreshToken100) = Some refreshToken100"
    by (simp add: bindRequired_def refreshToken100_def)
  then show ?thesis
    by (simp add: RefreshToken_def ValidateRefreshToken_example GetUser_example
        GenerateTokenPair_def GenerateAccessToken_example GenerateRefreshToken_example)
qed

lemma RefreshToken_basic_example:
  "RefreshToken_basic specCodec exampleConfig None usersDB 0 0 (Some legacyToken) =
     (200, TokenBody ''++++++.secret++++++.sa@b.c+.-++++.n900'')"
proof -
  have "bindRequired (Some legacyToken) = Some legacyToken"
    by (simp add: bindRequired_def legacyToken_def)
  then show ?thesis
    by (simp add: RefreshToken_basic_def ValidateToken_basic_example GetUser_example
        GetAccessTokenDuration_def GenerateToken_example)
qed

text \<open>
  The claim as stated fails on the earlier handler: a successful call answers with an
  access token and no refresh token.
\<close>

theorem RefreshToken_basic_no_rotation:
  "RefreshToken_basic specCodec exampleConfig None usersDB 0 0 (Some legacyToken) =
     (200, TokenBody ''++++++.secret++++++.sa@b.c+.-++++.n900'')"
  by (rule RefreshToken_basic_example)

theorem RefreshToken_success_witness:
  "RefreshToken specCodec exampleConfig None usersDB 0 0 0 True (Some refreshToken100) =
     (200, TokenPairBody
        \<lparr>token = ''++++++.secret++++++.sa@b.c+++++++.saccess++++.n900'',
         refresh_token = ''++++++.secret++++++.sa@b.c++++++++.srefresh++++++.n86400''\<rparr>) \<and>
   (\<exists>req email access refresh.
      bindRequired (Some refreshToken100) = Some req \<and>
      ValidateRefreshToken specCodec exampleConfig 0 req = (email, None) \<and>
      GenerateAccessToken specCodec exampleConfig 0 email = Inr access \<and>
      GenerateRefreshToken specCodec exampleConfig 0 email = Inr refresh \<and>
      TokenPairBody
        \<lparr>token = ''++++++.secret++++++.sa@b.c+++++++.saccess++++.n900'',
         refresh_token = ''++++++.secret++++++.sa@b.c++++++++.srefresh++++++.n86400''\<rparr>
        = TokenPairBody \<lparr>token = access, refresh_token = refresh\<rparr>) \<and>
   RefreshToken_basic specCodec exampleConfig None usersDB 0 0 (Some legacyToken) =
     (200, TokenBody ''++++++.secret++++++.sa@b.c+.-++++.n900'') \<and>
   (\<exists>req email newToken.
      bindRequired (Some legacyToken) = Some req \<and>
      ValidateToken_basic specCodec exampleConfig 0 req = (email, None) \<and>
      GenerateToken specCodec exampleConfig 0 email (AccessTokenDuration exampleConfig)
        = Inr newToken \<and>
      TokenBody ''++++++.secret++++++.sa@b.c+.-++++.n900'' = TokenBody newToken)"
  using RefreshToken_success[of specCodec exampleConfig None usersDB 0 0 0 True
          "Some refreshToken100" _ _, THEN conjunct1, rule_format, OF RefreshToken_example]
        RefreshToken_success[of specCodec exampleConfig None usersDB 0 0 0 True
          "Some legacyToken" _ _, THEN conjunct2, rule_format, OF RefreshToken_basic_example]
        RefreshToken_example RefreshToken_basic_example
  by blast

text \<open>
  Claim C4. A bound request whose token the library parses without error (valid
  signature, unexpired) and whose \<open>email\<close> names no user of the store is answered with
  401 and \<open>User not found\<close>, and with no token: by \<open>RefreshToken\<close> when the token's
  kind is \<open>refresh\<close> or not a string, and by the earlier handler whatever the kind.
  Both handlers look the user up on every call before they generate a token: each
  successful answer comes with a validated email that names a user of the store.
\<close>

theorem RefreshToken_user_gone:
  assumes "bindRequired field = Some req"
    and "Parse lib req (SecretKey cfg) nowV =
           \<lparr>parseErr = None, Valid = True, Claims = Some claims\<rparr>"
    and "claims ''email'' = Some (VString email)"
    and "find (\<lambda>u. Email u = email) (users db) = None"
  shows "((\<forall>k. claims ''token_type'' = Some (VString k) \<longrightarrow> k = ''refresh'') \<longrightarrow>
            RefreshToken lib cfg None db nowV nowA nowR True field
              = (401, ErrorBody ''User not found'')) \<and>
         RefreshToken_basic lib cfg None db nowV nowA field
           = (401, ErrorBody ''User not found'') \<and>
         (\<forall>fault' db' readable field' b.
            RefreshToken lib cfg fault' db' nowV nowA nowR readable field' = (200, b) \<longrightarrow>
            (\<exists>req' email' u.
               bindRequired field' = Some req' \<and>
               ValidateRefreshToken lib cfg nowV req' = (email', None) \<and>
               find (\<lambda>u. Email u = email') (users db') = Some u)) \<and>
         (\<forall>fault' db' field' b.
            RefreshToken_basic lib cfg fault' db' nowV nowA field' = (200, b) \<longrightarrow>
            (\<exists>req' email' u.
               bindRequired field' = Some req' \<and>
               ValidateToken_basic lib cfg nowV req' = (email', None) \<and>
               find (\<lambda>u. Email u = email') (users db') = Some u))"
proof (intro conjI allI impI)
  assume k: "\<forall>k. claims ''token_type'' = Some (VString k) \<longrightarrow> k = ''refresh''"
  have "ValidateRefreshToken lib cfg nowV req = (email, None)"
  proof (cases "\<exists>k. claims ''token_type'' = Some (VString k)")
    case True
    with k have "claims ''token_type'' = Some (VString ''refresh'')" by auto
    with assms(3) show ?thesis by (simp add: ValidateRefreshToken_parsed[OF assms(2)])
  next
    case False
    then have "asString (claims ''token_type'') = ([], False)"
      by (intro asString_not_string) simp
    with assms(3) show ?thesis by (simp add: ValidateRefreshToken_parsed[OF assms(2)])
  qed
  with assms(1) GetUser_gone[OF assms(4)]
  show "RefreshToken lib cfg None db nowV nowA nowR True field = (401, ErrorBody ''User not found'')"
    by (simp add: RefreshToken_def)
next
  from assms(2,3) have "ValidateToken_basic lib cfg nowV req = (email, None)"
    by (simp add: ValidateToken_basic_def)
  with assms(1) GetUser_gone[OF assms(4)]
  show "RefreshToken_basic lib cfg None db nowV nowA field = (401, ErrorBody ''User not found'')"
    by (simp add: RefreshToken_basic_def)
next
  fix fault' db' readable field' b
  assume "RefreshToken lib cfg fault' db' nowV nowA nowR readable field' = (200, b)"
  from RefreshToken_ok[OF this]
  show "\<exists>req' email' u.
               bindRequired field' = Some req' \<and>
               ValidateRefreshToken lib cfg nowV req' = (email', None) \<and>
               find (\<lambda>u. Email u = email') (users db') = Some u"
    by (blast dest: GetUser_Inr)
next
  fix fault' db' field' b
  assume "RefreshToken_basic lib cfg fault' db' nowV nowA field' = (200, b)"
  from RefreshToken_basic_ok[OF this]
  show "\<exists>req' email' u.
               bindRequired field' = Some req' \<and>
               ValidateToken_basic lib cfg nowV req' = (email', None) \<and>
               find (\<lambda>u. Email u = email') (users db') = Some u"
    by (blast dest: GetUser_Inr)
qed

theorem RefreshToken_user_gone_witness:
  "bindRequired (Some refreshToken100) = Some refreshToken100 \<and>
   find (\<lambda>u. Email u = ''a@b.c'') (users emptyDB) = None \<and>
   RefreshToken specCodec exampleConfig None emptyDB 0 0 0 True (Some refreshToken100)
     = (401, ErrorBody ''User not found'') \<and>
   RefreshToken_basic specCodec exampleConfig None emptyDB 0 0 (Some refreshToken100)
     = (401, ErrorBody ''User not found'')"
proof -
  have b: "bindRequired (Some refreshToken100) = Some refreshToken100"
    by (simp add: bindRequired_def refreshToken100_def)
  have e: "fieldClaims (Some (VString ''a@b.c'')) (Some (VString ''refresh''))
             (Some (VNumber 100)) ''email'' = Some (VString ''a@b.c'')"
    by (simp add: fieldClaims_def)
  have u: "find (\<lambda>u. Email u = ''a@b.c'') (users emptyDB) = None"
    by (simp add: emptyDB_def)
  have k: "\<forall>k. fieldClaims (Some (VString ''a@b.c'')) (Some (VString ''refresh''))
             (Some (VNumber 100)) ''token_type'' = Some (VString k) \<longrightarrow> k = ''refresh''"
    by (simp add: fieldClaims_def)
  from RefreshToken_user_gone[OF b Parse_refreshToken100 e u, of 0 0] k b u
  show ?thesis by blast
qed

section \<open>Properties of the user service\<close>

text \<open>
  Claim C5. With the lookup not failed by the driver, \<open>ValidateUser\<close> returns the one
  value \<open>ErrInvalidCredentials\<close> for an email that is not stored and for a stored email
  with a password that differs from the stored one, so the two results are equal; and
  it returns \<open>nil\<close> for a stored email exactly when the password equals the stored
  string.
\<close>

theorem ValidateUser_same_error:
  assumes "find (\<lambda>u. Email u = email1) (users db) = None"
    and "find (\<lambda>u. Email u = email2) (users db) = Some u"
    and "Password u \<noteq> password2"
  shows "ValidateUser None db email1 password1 = Some ErrInvalidCredentials \<and>
         ValidateUser None db email2 password2 = Some ErrInvalidCredentials \<and>
         ValidateUser None db email1 password1 = ValidateUser None db email2 password2 \<and>
         (\<forall>pw. (ValidateUser None db email2 pw = None) = (pw = Password u))"
  using assms by (auto simp: ValidateUser_def firstUser_def)

theorem ValidateUser_same_error_witness:
  "ValidateUser None usersDB ''nobody@x.com'' ''anything'' = Some ErrInvalidCredentials \<and>
   ValidateUser None usersDB ''a@b.c'' ''wrongpassword'' = Some ErrInvalidCredentials \<and>
   ValidateUser None usersDB ''a@b.c'' ''password123'' = None"
proof -
  let ?u = "\<lparr>Email = ''a@b.c'', Password = ''password123'', Prefix = ''a@b'',
             ActiveOrganizationID = 1\<rparr>"
  have 1: "find (\<lambda>u. Email u = ''nobody@x.com'') (users usersDB) = None"
    by (simp add: usersDB_def)
  have 2: "find (\<lambda>u. Email u = ''a@b.c'') (users usersDB) = Some ?u"
    by (simp add: usersDB_def)
  have 3: "Password ?u \<noteq> ''wrongpassword''" by simp
  from ValidateUser_same_error[OF 1 2 3, of "''anything''"] show ?thesis by simp
qed

lemma CreateUser_tx_no_panic:
  "3 \<le> length email \<Longrightarrow> CreateUser_tx f db email password \<noteq> Panic"
  by (auto simp: CreateUser_tx_def createOrganization_def sliceTo_def Let_def
      split: option.splits sum.splits prod.splits outcome.splits)

lemma CreateUser_tx_panic:
  "length email < 3 \<Longrightarrow> createOrgErr f = None \<Longrightarrow> CreateUser_tx f db email password = Panic"
  by (simp add: CreateUser_tx_def createOrganization_def sliceTo_def Let_def)

lemma CreateUser_tx_success:
  assumes "3 \<le> length email" "createOrgErr f = None" "createUserErr f = None"
    and "commitUserErr f = None" "\<forall>u \<in> set (users db). Email u \<noteq> email"
  shows "CreateUser_tx f db email password =
     Return (None,
       db\<lparr>users := users db @
               [\<lparr>Email = email, Password = password, Prefix = take 3 email,
                 ActiveOrganizationID = newOrgID f\<rparr>],
          organizations := organizations db @
               [\<lparr>OrgID = newOrgID f, Name = email @ ''_org''\<rparr>],
          organization_users :=
               (case appendErr f of
                  None \<Rightarrow> organization_users db @ [(newOrgID f, email)]
                | Some e \<Rightarrow> organization_users db)\<rparr>,
       (case appendErr f of None \<Rightarrow> [] | Some e \<Rightarrow> [AssociationWarning e]))"
  using assms
  by (simp add: CreateUser_tx_def createOrganization_def createUserRow_def sliceTo_def Let_def
      split: option.splits)

lemma CreateUser_tx_org_failure:
  "createOrgErr f = Some e \<Longrightarrow> CreateUser_tx f db email password = Return (Some e, db, [])"
  by (simp add: CreateUser_tx_def createOrganization_def)

lemma CreateUser_tx_user_failure:
  assumes "3 \<le> length email" "createOrgErr f = None" "createUserErr f = Some e"
  shows "CreateUser_tx f db email password =
     Return (if e = ErrDuplicatedKey then Some ErrUserAlreadyExists else Some e, db, [])"
  using assms
  by (simp add: CreateUser_tx_def createOrganization_def createUserRow_def sliceTo_def Let_def)

lemma CreateUser_tx_duplicate:
  assumes "3 \<le> length email" "createOrgErr f = None" "createUserErr f = None"
    and "\<exists>u \<in> set (users db). Email u = email"
  shows "CreateUser_tx f db email password =
     Return (if duplicateErr f = ErrDuplicatedKey then Some ErrUserAlreadyExists
             else Some (duplicateErr f), db, [])"
  using assms
  by (simp add: CreateUser_tx_def createOrganization_def createUserRow_def sliceTo_def Let_def)

lemma CreateUser_tx_commit_failure:
  assumes "3 \<le> length email" "createOrgErr f = None" "createUserErr f = None"
    and "commitUserErr f = Some e" "\<forall>u \<in> set (users db). Email u \<noteq> email"
  shows "\<exists>logs. CreateUser_tx f db email password = Return (Some e, db, logs)"
  using assms
  by (simp add: CreateUser_tx_def createOrganization_def createUserRow_def sliceTo_def Let_def
      split: option.splits)

lemma CreateUser_started:
  "email \<noteq> [] \<Longrightarrow> password \<noteq> [] \<Longrightarrow> beginErr f = None \<Longrightarrow>
   CreateUser f db email password =
     (case CreateUser_tx f db email password of Panic \<Rightarrow> (None, db, []) | Return r \<Rightarrow> r)"
  by (simp add: CreateUser_def)

text \<open>
  Claim C7. For an email of at least 3 bytes, a non-empty password and a transaction
  that begins: when the organization and the user are written and the commit succeeds,
  \<open>CreateUser\<close> returns \<open>nil\<close> and the database gains, together, the organization
  named after the email and the user whose active organization is that organization and
  whose prefix is the first 3 bytes of the email; the membership row is added when its
  write succeeds, and when it fails the failure is logged and the registration succeeds
  all the same. When the write of the organization or of the user fails (a driver
  failure or a duplicate email), or the commit fails, \<open>CreateUser\<close> returns the error
  and the database is as before.
\<close>

theorem CreateUser_registers:
  assumes "3 \<le> length email" "password \<noteq> []" "beginErr f = None"
  shows "(createOrgErr f = None \<and> createUserErr f = None \<and> commitUserErr f = None \<and>
          (\<forall>u \<in> set (users db). Email u \<noteq> email) \<longrightarrow>
            CreateUser f db email password =
              (None,
               db\<lparr>users := users db @
                      [\<lparr>Email = email, Password = password, Prefix = take 3 email,
                        ActiveOrganizationID = newOrgID f\<rparr>],
                  organizations := organizations db @
                      [\<lparr>OrgID = newOrgID f,
                        Name = email @ ''_org''\<rparr>],
                  organization_users :=
                      (case appendErr f of
                         None \<Rightarrow> organization_users db @
                                   [(newOrgID f, email)]
                       | Some e \<Rightarrow> organization_users db)\<rparr>,
               (case appendErr f of None \<Rightarrow> [] | Some e \<Rightarrow> [AssociationWarning e]))) \<and>
         (\<forall>e. createOrgErr f = Some e \<longrightarrow>
            CreateUser f db email password = (Some e, db, [])) \<and>
         (\<forall>e. createOrgErr f = None \<and> createUserErr f = Some e \<longrightarrow>
            CreateUser f db email password =
              (if e = ErrDuplicatedKey then Some ErrUserAlreadyExists else Some e, db, [])) \<and>
         (createOrgErr f = None \<and> createUserErr f = None \<and>
          (\<exists>u \<in> set (users db). Email u = email) \<longrightarrow>
            CreateUser f db email password =
              (if duplicateErr f = ErrDuplicatedKey then Some ErrUserAlreadyExists
               else Some (duplicateErr f), db, [])) \<and>
         (\<forall>e. createOrgErr f = None \<and> createUserErr f = None \<and> commitUserErr f = Some e \<and>
              (\<forall>u \<in> set (users db). Email u \<noteq> email) \<longrightarrow>
            fst (CreateUser f db email password) = Some e \<and>
            fst (snd (CreateUser f db email password)) = db)"
proof -
  from assms(1) have ne: "email \<noteq> []" by auto
  note st = CreateUser_started[OF ne assms(2,3)]
  show ?thesis
  proof (intro conjI allI impI)
    assume "createOrgErr f = None \<and> createUserErr f = None \<and> commitUserErr f = None \<and>
          (\<forall>u \<in> set (users db). Email u \<noteq> email)"
    then show "CreateUser f db email password =
              (None,
               db\<lparr>users := users db @
                      [\<lparr>Email = email, Password = password, Prefix = take 3 email,
                        ActiveOrganizationID = newOrgID f\<rparr>],
                  organizations := organizations db @
                      [\<lparr>OrgID = newOrgID f,
                        Name = email @ ''_org''\<rparr>],
                  organization_users :=
                      (case appendErr f of
                         None \<Rightarrow> organization_users db @
                                   [(newOrgID f, email)]
                       | Some e \<Rightarrow> organization_users db)\<rparr>,
               (case appendErr f of None \<Rightarrow> [] | Some e \<Rightarrow> [AssociationWarning e]))"
      by (simp add: st CreateUser_tx_success[OF assms(1)])
  next
    fix e assume "createOrgErr f = Some e"
    then show "CreateUser f db email password = (Some e, db, [])"
      by (simp add: st CreateUser_tx_org_failure)
  next
    fix e assume "createOrgErr f = None \<and> createUserErr f = Some e"
    then show "CreateUser f db email password =
              (if e = ErrDuplicatedKey then Some ErrUserAlreadyExists else Some e, db, [])"
      by (simp add: st CreateUser_tx_user_failure[OF assms(1)])
  next
    assume "createOrgErr f = None \<and> createUserErr f = None \<and>
          (\<exists>u \<in> set (users db). Email u = email)"
    then show "CreateUser f db email password =
              (if duplicateErr f = ErrDuplicatedKey then Some ErrUserAlreadyExists
               else Some (duplicateErr f), db, [])"
      by (simp add: st CreateUser_tx_duplicate[OF assms(1)])
  next
    fix e
    assume a: "createOrgErr f = None \<and> createUserErr f = None \<and> commitUserErr f = Some e \<and>
              (\<forall>u \<in> set (users db). Email u \<noteq> email)"
    then obtain logs where "CreateUser_tx f db email password = Return (Some e, db, logs)"
      using CreateUser_tx_commit_failure[OF assms(1), of f e db password] by blast
    then show "fst (CreateUser f db email password) = Some e"
      and "fst (snd (CreateUser f db email password)) = db"
      by (simp_all add: st)
  qed
qed

theorem CreateUser_registers_witness:
  "CreateUser noCreateUserFaults emptyDB ''alice@example.com'' ''password123'' =
     (None,
      \<lparr>users = [\<lparr>Email = ''alice@example.com'', Password = ''password123'', Prefix = ''ali'',
                 ActiveOrganizationID = 2\<rparr>],
       organizations = [\<lparr>OrgID = 2, Name = ''alice@example.com_org''\<rparr>],
       organization_users = [(2, ''alice@example.com'')],
       backpack_id_next_numbers = [], reset_tokens = []\<rparr>,
      []) \<and>
   CreateUser (noCreateUserFaults\<lparr>appendErr := Some (ErrDriver ''no such table'')\<rparr>) emptyDB
       ''alice@example.com'' ''password123'' =
     (None,
      \<lparr>users = [\<lparr>Email = ''alice@example.com'', Password = ''password123'', Prefix = ''ali'',
                 ActiveOrganizationID = 2\<rparr>],
       organizations = [\<lparr>OrgID = 2, Name = ''alice@example.com_org''\<rparr>],
       organization_users = [],
       backpack_id_next_numbers = [], reset_tokens = []\<rparr>,
      [AssociationWarning (ErrDriver ''no such table'')]) \<and>
   CreateUser (noCreateUserFaults\<lparr>createUserErr := Some (ErrDriver ''connection lost'')\<rparr>)
       emptyDB ''alice@example.com'' ''password123'' =
     (Some (ErrDriver ''connection lost''), emptyDB, []) \<and>
   CreateUser noCreateUserFaults usersDB ''a@b.c'' ''password123'' =
     (Some (ErrDriver ''duplicate key value violates unique constraint''), usersDB, []) \<and>
   CreateUser (noCreateUserFaults\<lparr>duplicateErr := ErrDuplicatedKey\<rparr>) usersDB ''a@b.c''
       ''password123'' =
     (Some ErrUserAlreadyExists, usersDB, [])"
proof -
  have l: "3 \<le> length ''alice@example.com''" "3 \<le> length ''a@b.c''" by simp_all
  have p: "''password123'' \<noteq> []" by simp
  let ?g = "noCreateUserFaults\<lparr>appendErr := Some (ErrDriver ''no such table'')\<rparr>"
  let ?h = "noCreateUserFaults\<lparr>createUserErr := Some (ErrDriver ''connection lost'')\<rparr>"
  let ?d = "noCreateUserFaults\<lparr>duplicateErr := ErrDuplicatedKey\<rparr>"
  have b: "beginErr noCreateUserFaults = None" "beginErr ?g = None" "beginErr ?h = None"
    "beginErr ?d = None"
    by (simp_all add: noCreateUserFaults_def)
  from CreateUser_registers[OF l(1) p b(1), of emptyDB, THEN conjunct1]
  have 1: "CreateUser noCreateUserFaults emptyDB ''alice@example.com'' ''password123'' =
     (None,
      \<lparr>users = [\<lparr>Email = ''alice@example.com'', Password = ''password123'', Prefix = ''ali'',
                 ActiveOrganizationID = 2\<rparr>],
       organizations = [\<lparr>OrgID = 2, Name = ''alice@example.com_org''\<rparr>],
       organization_users = [(2, ''alice@example.com'')],
       backpack_id_next_numbers = [], reset_tokens = []\<rparr>,
      [])"
    by (simp add: noCreateUserFaults_def emptyDB_def)
  from CreateUser_registers[OF l(1) p b(2), of emptyDB, THEN conjunct1]
  have 2: "CreateUser ?g emptyDB ''alice@example.com'' ''password123'' =
     (None,
      \<lparr>users = [\<lparr>Email = ''alice@example.com'', Password = ''password123'', Prefix = ''ali'',
                 ActiveOrganizationID = 2\<rparr>],
       organizations = [\<lparr>OrgID = 2, Name = ''alice@example.com_org''\<rparr>],
       organization_users = [],
       backpack_id_next_numbers = [], reset_tokens = []\<rparr>,
      [AssociationWarning (ErrDriver ''no such table'')])"
    by (simp add: noCreateUserFaults_def emptyDB_def)
  from CreateUser_registers[OF l(1) p b(3), of emptyDB, THEN conjunct2, THEN conjunct2,
      THEN conjunct1, rule_format, of "ErrDriver ''connection lost''"]
  have 3: "CreateUser ?h emptyDB ''alice@example.com'' ''password123'' =
     (Some (ErrDriver ''connection lost''), emptyDB, [])"
    by (simp add: noCreateUserFaults_def)
  from CreateUser_registers[OF l(2) p b(1), of usersDB, THEN conjunct2, THEN conjunct2,
      THEN conjunct2, THEN conjunct1]
  have 4: "CreateUser noCreateUserFaults usersDB ''a@b.c'' ''password123'' =
     (Some (ErrDriver ''duplicate key value violates unique constraint''), usersDB, [])"
    by (simp add: noCreateUserFaults_def) (simp add: usersDB_def)
  from CreateUser_registers[OF l(2) p b(4), of usersDB, THEN conjunct2, THEN conjunct2,
      THEN conjunct2, THEN conjunct1]
  have 5: "CreateUser ?d usersDB ''a@b.c'' ''password123'' =
     (Some ErrUserAlreadyExists, usersDB, [])"
    by (simp add: noCreateUserFaults_def) (simp add: usersDB_def)
  from 1 2 3 4 5 show ?thesis by blast
qed

text \<open>
  Claim C10. The slice \<open>email[:3]\<close> panics exactly when the email has fewer than 3
  bytes; with an email of at least 3 bytes the transaction does not panic. For a
  non-empty email of 1 or 2 bytes (and a non-empty password, a transaction that begins
  and an organization that is written, so that the slice is reached) the transaction
  panics, and \<open>CreateUser\<close> returns a \<open>nil\<close> error with the database as before: no
  user and no organization was created.
\<close>

theorem CreateUser_short_email:
  "(sliceTo email 3 = Panic) = (length email < 3) \<and>
   (3 \<le> length email \<longrightarrow> CreateUser_tx f db email password \<noteq> Panic) \<and>
   (email \<noteq> [] \<and> length email < 3 \<and> password \<noteq> [] \<and> beginErr f = None \<and>
    createOrgErr f = None \<longrightarrow>
      CreateUser_tx f db email password = Panic \<and>
      CreateUser f db email password = (None, db, []))"
  by (auto simp: sliceTo_def CreateUser_tx_no_panic CreateUser_tx_panic CreateUser_started)

theorem CreateUser_short_email_witness:
  "sliceTo ''ab'' 3 = Panic \<and>
   CreateUser_tx noCreateUserFaults usersDB ''ab'' ''password123'' = Panic \<and>
   CreateUser noCreateUserFaults usersDB ''ab'' ''password123'' = (None, usersDB, []) \<and>
   CreateUser_tx noCreateUserFaults emptyDB ''abc'' ''password123'' \<noteq> Panic"
proof -
  have h: "''ab'' \<noteq> [] \<and> length ''ab'' < 3 \<and> ''password123'' \<noteq> [] \<and>
      beginErr noCreateUserFaults = None \<and> createOrgErr noCreateUserFaults = None"
    by (simp add: noCreateUserFaults_def)
  from CreateUser_short_email[of "''ab''" noCreateUserFaults usersDB "''password123''"] h
  have "sliceTo ''ab'' 3 = Panic"
    "CreateUser_tx noCreateUserFaults usersDB ''ab'' ''password123'' = Panic"
    "CreateUser noCreateUserFaults usersDB ''ab'' ''password123'' = (None, usersDB, [])"
    by simp_all
  moreover from CreateUser_short_email[of "''abc''" noCreateUserFaults emptyDB "''password123''"]
  have "CreateUser_tx noCreateUserFaults emptyDB ''abc'' ''password123'' \<noteq> Panic"
    by simp
  ultimately show ?thesis by blast
qed

section \<open>Properties of the password reset\<close>

lemmas reset_eval =
  RequestPasswordReset_def bindRequired_def firstUser_def createResetToken_def FormatInt10_def
  Unix_def natDigits.simps digit_char_def

lemma RequestPasswordReset_first:
  "RequestPasswordReset (noResetFaults\<lparr>newTokenID := 1\<rparr>) usersDB 100000000000 100000000000
       (Some ''a@b.c'') =
     ((200, MessageBody ''Password reset token sent''), oneTokenDB)"
  by (simp add: reset_eval noResetFaults_def usersDB_def oneTokenDB_def)

text \<open>
  Claim C6 fails on the handler. A second request of the same user, one second after
  the first, adds the token \<open>reset_101\<close> and keeps \<open>reset_100\<close>: the user then has two
  live tokens.
\<close>

theorem RequestPasswordReset_keeps_prior_token:
  "RequestPasswordReset noResetFaults oneTokenDB 101000000000 101000000000 (Some ''a@b.c'') =
     ((200, MessageBody ''Password reset token sent''),
      oneTokenDB\<lparr>reset_tokens :=
        [\<lparr>TokenID = 1, Token = ''reset_100'', ExpiredAt = 400000000000, UserEmail = ''a@b.c''\<rparr>,
         \<lparr>TokenID = 2, Token = ''reset_101'', ExpiredAt = 401000000000,
           UserEmail = ''a@b.c''\<rparr>]\<rparr>) \<and>
   length (liveTokens
      (snd (RequestPasswordReset noResetFaults oneTokenDB 101000000000 101000000000
              (Some ''a@b.c'')))
      ''a@b.c'' 102000000000) = 2"
proof -
  have r: "RequestPasswordReset noResetFaults oneTokenDB 101000000000 101000000000 (Some ''a@b.c'') =
     ((200, MessageBody ''Password reset token sent''),
      oneTokenDB\<lparr>reset_tokens :=
        [\<lparr>TokenID = 1, Token = ''reset_100'', ExpiredAt = 400000000000, UserEmail = ''a@b.c''\<rparr>,
         \<lparr>TokenID = 2, Token = ''reset_101'', ExpiredAt = 401000000000,
           UserEmail = ''a@b.c''\<rparr>]\<rparr>)"
    by (simp add: reset_eval noResetFaults_def usersDB_def oneTokenDB_def)
  show ?thesis
    unfolding r by (simp add: liveTokens_def)
qed

text \<open>
  The reset service does what the handler misses: after a successful
  \<open>CreateResetToken\<close> whose delete the driver did not fail, the new token is the only
  token of the user.
\<close>

lemma CreateResetToken_single:
  assumes "deleteErr f = None"
    and "CreateResetToken f db now drawn userEmail = (Inr t, db')"
  shows "\<exists>k. filter (\<lambda>r. UserEmail r = userEmail) (reset_tokens db') =
           [\<lparr>TokenID = k, Token = drawn, ExpiredAt = now + 5 * 60 * 1000000000,
             UserEmail = userEmail\<rparr>]"
  using assms
  by (auto simp: CreateResetToken_def createResetToken_def Let_def
      split: sum.splits if_splits option.splits)

text \<open>
  A token used successfully is deleted: after a successful \<open>SetNewPassword\<close> whose
  delete the driver did not fail, no row has the used token's key.
\<close>

lemma SetNewPassword_deletes:
  assumes "deleteErr f = None"
    and "SetNewPassword f db now password tokenField = ((200, b), db')"
  shows "\<exists>tk r. bindRequired tokenField = Some tk \<and>
           find (\<lambda>r. Token r = tk \<and> now < ExpiredAt r) (reset_tokens db) = Some r \<and>
           reset_tokens db' = filter (\<lambda>q. TokenID q \<noteq> TokenID r) (reset_tokens db)"
  using assms
  by (auto simp: SetNewPassword_def Let_def
      split: sum.splits if_splits option.splits prod.splits)

section \<open>Round trip through the Token Codec\<close>

lemma Decode_Encode:
  assumes "dom c \<subseteq> {''email'', ''token_type'', ''exp''}" "\<not> expiredAt (c ''exp'') t"
    and "Encode key c = Inr tok"
  shows "Decode tok key t = \<lparr>parseErr = None, Valid = True, Claims = Some c\<rparr>"
  using assms(2) by (simp add: Decode_Encode_fields[OF assms(3)] fieldClaims_self[OF assms(1)])

lemma Claims_Decode_Encode:
  assumes "dom c \<subseteq> {''email'', ''token_type'', ''exp''}" "Encode key c = Inr tok"
  shows "Claims (Decode tok key t) = Some c"
  by (simp add: Decode_Encode_fields[OF assms(2)] fieldClaims_self[OF assms(1)])

lemma ValidateToken_GenerateToken:
  assumes "GenerateToken specCodec cfg now email d = Inr tok"
    and "t < Unix (now + d) * 1000000000"
  shows "ValidateToken specCodec cfg t tok = (email, None)"
proof -
  let ?c = "[''email'' \<mapsto> VString email, ''exp'' \<mapsto> VNumber (Unix (now + d))]"
  from assms(1) have e: "Encode (SecretKey cfg) ?c = Inr tok"
    by (simp add: GenerateToken_def specCodec_def)
  have d: "dom ?c \<subseteq> {''email'', ''token_type'', ''exp''}" by auto
  from assms(2) have x: "\<not> expiredAt (?c ''exp'') t" by (simp add: expiredAt_def)
  have "Parse specCodec tok (SecretKey cfg) t = \<lparr>parseErr = None, Valid = True, Claims = Some ?c\<rparr>"
    using Decode_Encode[OF d x e] by (simp add: specCodec_def)
  from ValidateToken_parsed[OF this] show ?thesis by simp
qed

text \<open>
  Claim C8. A claim set of the supported fields that has not expired at decode time
  decodes, under the secret it was encoded with, to itself. For every email and every
  duration \<open>d\<close>, \<open>GenerateToken\<close> returns a token whose claims are the email and, as
  \<open>exp\<close>, the instant \<open>now + d\<close> truncated to the whole second; validated at any
  instant before the expiry the token carries, the token yields exactly the email.
\<close>

theorem codec_round_trip:
  "(dom c \<subseteq> {''email'', ''token_type'', ''exp''} \<and> \<not> expiredAt (c ''exp'') t \<longrightarrow>
      (\<exists>tok. Encode key c = Inr tok \<and>
             Decode tok key t = \<lparr>parseErr = None, Valid = True, Claims = Some c\<rparr>)) \<and>
   (\<exists>tok. GenerateToken specCodec cfg now email d = Inr tok \<and>
          Claims (Decode tok (SecretKey cfg) t) =
            Some [''email'' \<mapsto> VString email,
                  ''exp'' \<mapsto> VNumber ((now + d) div 1000000000)] \<and>
          (t < ((now + d) div 1000000000) * 1000000000 \<longrightarrow>
             ValidateToken specCodec cfg t tok = (email, None)))"
proof (intro conjI impI)
  assume a: "dom c \<subseteq> {''email'', ''token_type'', ''exp''} \<and> \<not> expiredAt (c ''exp'') t"
  obtain tok where tok: "Encode key c = Inr tok" by (simp add: Encode_def)
  with a Decode_Encode[of c t key tok]
  show "\<exists>tok. Encode key c = Inr tok \<and>
             Decode tok key t = \<lparr>parseErr = None, Valid = True, Claims = Some c\<rparr>"
    by blast
next
  let ?c = "[''email'' \<mapsto> VString email, ''exp'' \<mapsto> VNumber (Unix (now + d))]"
  obtain tok where tok: "GenerateToken specCodec cfg now email d = Inr tok"
    by (simp add: GenerateToken_def specCodec_def Encode_def)
  then have e: "Encode (SecretKey cfg) ?c = Inr tok"
    by (simp add: GenerateToken_def specCodec_def)
  have d: "dom ?c \<subseteq> {''email'', ''token_type'', ''exp''}" by auto
  have "Claims (Decode tok (SecretKey cfg) t) = Some ?c"
    by (rule Claims_Decode_Encode[OF d e])
  moreover have "t < ((now + d) div 1000000000) * 1000000000 \<longrightarrow>
             ValidateToken specCodec cfg t tok = (email, None)"
    using ValidateToken_GenerateToken[OF tok, of t] by (simp add: Unix_def)
  ultimately show "\<exists>tok. GenerateToken specCodec cfg now email d = Inr tok \<and>
          Claims (Decode tok (SecretKey cfg) t) =
            Some [''email'' \<mapsto> VString email,
                  ''exp'' \<mapsto> VNumber ((now + d) div 1000000000)] \<and>
          (t < ((now + d) div 1000000000) * 1000000000 \<longrightarrow>
             ValidateToken specCodec cfg t tok = (email, None))"
    using tok by (auto simp: Unix_def)
qed

lemma GenerateToken_example_15min:
  "GenerateToken specCodec exampleConfig 700000000 ''a@b.c'' 900000000000 =
     Inr ''++++++.secret++++++.sa@b.c+.-++++.n900''"
  by (simp add: GenerateToken_def token_eval)

theorem codec_round_trip_witness:
  "GenerateToken specCodec exampleConfig 700000000 ''a@b.c'' 900000000000 =
     Inr ''++++++.secret++++++.sa@b.c+.-++++.n900'' \<and>
   ValidateToken specCodec exampleConfig 899999999999
     ''++++++.secret++++++.sa@b.c+.-++++.n900'' = (''a@b.c'', None) \<and>
   Decode ''++++++.secret++++++.sa@b.c+.-++++.n900'' ''secret'' 899999999999 =
     \<lparr>parseErr = None, Valid = True,
      Claims = Some [''email'' \<mapsto> VString ''a@b.c'', ''exp'' \<mapsto> VNumber 900]\<rparr>"
proof -
  let ?c = "[''email'' \<mapsto> VString ''a@b.c'', ''exp'' \<mapsto> VNumber 900]"
  let ?tok = "''++++++.secret++++++.sa@b.c+.-++++.n900''"
  have enc: "Encode ''secret'' ?c = Inr ?tok"
    using GenerateToken_example_15min
    by (simp add: GenerateToken_def specCodec_def exampleConfig_def Unix_def)
  have h: "dom ?c \<subseteq> {''email'', ''token_type'', ''exp''} \<and> \<not> expiredAt (?c ''exp'') 899999999999"
    by (auto simp: expiredAt_def)
  from codec_round_trip[of ?c 899999999999 "''secret''" exampleConfig 700000000 "''a@b.c''"
      900000000000]
  have 1: "\<exists>tok. Encode ''secret'' ?c = Inr tok \<and>
       Decode tok ''secret'' 899999999999 = \<lparr>parseErr = None, Valid = True, Claims = Some ?c\<rparr>"
    and 2: "\<exists>tok. GenerateToken specCodec exampleConfig 700000000 ''a@b.c'' 900000000000 = Inr tok \<and>
       ValidateToken specCodec exampleConfig 899999999999 tok = (''a@b.c'', None)"
    using h by auto
  from 1 enc have "Decode ?tok ''secret'' 899999999999 =
      \<lparr>parseErr = None, Valid = True, Claims = Some ?c\<rparr>" by auto
  moreover from 2 GenerateToken_example_15min
  have "ValidateToken specCodec exampleConfig 899999999999 ?tok = (''a@b.c'', None)" by auto
  ultimately show ?thesis using GenerateToken_example_15min by blast
qed

text \<open>
  The truncation at work: a token generated at 1.7 s with the duration 0.1 s carries
  \<open>exp = 1\<close>, and validated at 1.7 s, which is after the expiry it carries, it is
  rejected as expired.
\<close>

lemma GenerateToken_truncated_expiry:
  "(0 :: int) < 100000000 \<and> (1700000000 :: int) < 1700000000 + 100000000 \<and>
   GenerateToken specCodec exampleConfig 1700000000 ''a@b.c'' 100000000 =
     Inr ''++++++.secret++++++.sa@b.c+.-++.n1'' \<and>
   ValidateToken specCodec exampleConfig 1700000000 ''++++++.secret++++++.sa@b.c+.-++.n1'' =
     ([], Some ErrExpired)"
proof -
  let ?c = "[''email'' \<mapsto> VString ''a@b.c'', ''exp'' \<mapsto> VNumber 1]"
  have g: "GenerateToken specCodec exampleConfig 1700000000 ''a@b.c'' 100000000 =
     Inr ''++++++.secret++++++.sa@b.c+.-++.n1''"
    by (simp add: GenerateToken_def token_eval)
  then have e: "Encode ''secret'' ?c = Inr ''++++++.secret++++++.sa@b.c+.-++.n1''"
    by (simp add: GenerateToken_def specCodec_def exampleConfig_def Unix_def)
  have "ValidateToken specCodec exampleConfig 1700000000 ''++++++.secret++++++.sa@b.c+.-++.n1'' =
     ([], Some ErrExpired)"
    by (simp add: ValidateToken_def specCodec_def exampleConfig_def
        Decode_Encode_fields[OF e] expiredAt_def)
  with g show ?thesis by simp
qed

section \<open>Further properties of the ID allocator\<close>

lemma getNextID_step:
  assumes "findErr f = None" "createErr f = None" "saveErr f = None" "commitErr f = None"
  shows "fst (getNextID f db prefix) = Inr (Sprintf04d (sint (priorNumber db prefix + 1)))"
    and "storedNumber (snd (getNextID f db prefix)) prefix = Some (priorNumber db prefix + 1)"
proof -
  have f1: "Sprintf04d (sint (1 :: 64 word)) = ''0001''" by (simp add: format_eval)
  show "fst (getNextID f db prefix) = Inr (Sprintf04d (sint (priorNumber db prefix + 1)))"
    using assms getNextID_first(1)[of f db prefix] getNextID_next(1)[of f db prefix] f1
    by (cases "storedNumber db prefix") (simp_all add: priorNumber_def)
  show "storedNumber (snd (getNextID f db prefix)) prefix = Some (priorNumber db prefix + 1)"
    using assms getNextID_first(2)[of f db prefix] getNextID_next(2)[of f db prefix]
    by (cases "storedNumber db prefix") (simp_all add: priorNumber_def)
qed

lemma getNextIDs_run:
  assumes "findErr f = None" "createErr f = None" "saveErr f = None" "commitErr f = None"
  shows "fst (getNextIDs f db prefix k) =
           map (\<lambda>i. Inr (Sprintf04d (sint (priorNumber db prefix + of_nat (Suc i))))) [0..<k] \<and>
         priorNumber (snd (getNextIDs f db prefix k)) prefix = priorNumber db prefix + of_nat k"
proof (induction k arbitrary: db)
  case 0
  show ?case by simp
next
  case (Suc k)
  let ?db' = "snd (getNextID f db prefix)"
  have p: "priorNumber ?db' prefix = priorNumber db prefix + 1"
    using getNextID_step(2)[OF assms, of db prefix] by (simp add: priorNumber_def)
  have m: "map (\<lambda>i. Inr (Sprintf04d (sint (priorNumber db prefix + of_nat (Suc i))))) [0..<Suc k]
      = Inr (Sprintf04d (sint (priorNumber db prefix + 1)))
        # map (\<lambda>i. Inr (Sprintf04d (sint (priorNumber db prefix + 1 + of_nat (Suc i))))) [0..<k]"
    (is "?l = ?h # ?t")
  proof -
    have "[0..<Suc k] = 0 # map Suc [0..<k]"
      by (simp add: upt_conv_Cons map_Suc_upt del: upt_Suc)
    then have "?l = map (\<lambda>i. Inr (Sprintf04d (sint (priorNumber db prefix + of_nat (Suc i)))))
        (0 # map Suc [0..<k])" by simp
    also have "\<dots> = ?h # ?t" by (simp add: comp_def ac_simps)
    finally show ?thesis .
  qed
  have u: "getNextIDs f db prefix (Suc k) =
      (fst (getNextID f db prefix) # fst (getNextIDs f ?db' prefix k),
       snd (getNextIDs f ?db' prefix k))"
    by (simp add: case_prod_beta Let_def)
  from Suc.IH[of ?db']
  have ih1: "fst (getNextIDs f ?db' prefix k) = ?t"
    and ih2: "priorNumber (snd (getNextIDs f ?db' prefix k)) prefix
                = priorNumber db prefix + 1 + of_nat k"
    unfolding p by simp_all
  have "fst (getNextIDs f db prefix (Suc k)) = ?l"
    unfolding u m by (simp only: fst_conv ih1 getNextID_step(1)[OF assms])
  moreover have "priorNumber (snd (getNextIDs f db prefix (Suc k))) prefix
      = priorNumber db prefix + of_nat (Suc k)"
    unfolding u by (simp only: snd_conv ih2) (simp add: ac_simps)
  ultimately show ?case by blast
qed

lemma sint_add_of_nat:
  "0 \<le> sint (n :: 64 word) \<Longrightarrow> sint n + int j < 2 ^ 63 \<Longrightarrow> sint (n + of_nat j) = sint n + int j"
proof (induction j)
  case 0
  show ?case by simp
next
  case (Suc j)
  then have "sint (n + of_nat j) = sint n + int j" by simp
  moreover from this Suc.prems have "sint (n + of_nat j) \<noteq> 2 ^ 63 - 1" by simp
  ultimately show ?case
    using sint_succ[of "n + of_nat j"] by (simp add: ac_simps)
qed

lemma Sprintf04d_inj:
  "0 \<le> a \<Longrightarrow> 0 \<le> b \<Longrightarrow> Sprintf04d a = Sprintf04d b \<Longrightarrow> a = b"
  using Sprintf04d_nonneg(1)[of a] Sprintf04d_nonneg(1)[of b] by simp

lemma getNextID_failure:
  "fst (getNextID f db prefix) = Inl e \<Longrightarrow> snd (getNextID f db prefix) = db"
  by (auto simp: getNextID_def commitNextID_def Let_def
      split: sum.splits if_splits option.splits prod.splits)

text \<open>
  A failed allocation leaves no trace: when \<open>getNextID\<close> returns an error, whichever
  statement failed, the database is the one before the call.
\<close>

theorem getNextID_error_rolls_back:
  "fst (getNextID f db prefix) = Inl e \<longrightarrow> snd (getNextID f db prefix) = db"
  by (simp add: getNextID_failure)

theorem getNextID_error_rolls_back_witness:
  "fst (getNextID (noNextIDFaults\<lparr>saveErr := Some (ErrDriver ''deadlock'')\<rparr>) allocatorDB ''ABC'')
     = Inl (ErrDriver ''deadlock'') \<and>
   snd (getNextID (noNextIDFaults\<lparr>saveErr := Some (ErrDriver ''deadlock'')\<rparr>) allocatorDB ''ABC'')
     = allocatorDB"
proof -
  have "fst (getNextID (noNextIDFaults\<lparr>saveErr := Some (ErrDriver ''deadlock'')\<rparr>) allocatorDB
      ''ABC'') = Inl (ErrDriver ''deadlock'')"
    by (simp add: getNextID_def firstNextNumber_def saveNextNumber_def noNextIDFaults_def
        allocatorDB_def)
  with getNextID_error_rolls_back[of "noNextIDFaults\<lparr>saveErr := Some (ErrDriver ''deadlock'')\<rparr>"
      allocatorDB "''ABC''" "ErrDriver ''deadlock''"]
  show ?thesis by simp
qed

text \<open>
  Successive allocations for one prefix, with no driver failure and the counter below
  the largest \<open>int\<close>: the \<open>k\<close> results are the formatted numbers following the prior
  counter value, in order, they are pairwise distinct, and the counter ends \<open>k\<close> higher.
\<close>

theorem getNextIDs_contiguous:
  assumes "findErr f = None" "createErr f = None" "saveErr f = None" "commitErr f = None"
    and "0 \<le> sint (priorNumber db prefix)"
    and "sint (priorNumber db prefix) + int k < 2 ^ 63"
  shows "fst (getNextIDs f db prefix k) =
           map (\<lambda>i. Inr (Sprintf04d (sint (priorNumber db prefix) + 1 + int i))) [0..<k] \<and>
         distinct (fst (getNextIDs f db prefix k)) \<and>
         priorNumber (snd (getNextIDs f db prefix k)) prefix = priorNumber db prefix + of_nat k"
proof -
  let ?n = "priorNumber db prefix"
  note run = getNextIDs_run[OF assms(1-4), of db prefix k]
  have eq: "map (\<lambda>i. Inr (Sprintf04d (sint (?n + of_nat (Suc i))))) [0..<k]
      = map (\<lambda>i. (Inr (Sprintf04d (sint ?n + 1 + int i)) :: error + string)) [0..<k]"
  proof (rule map_cong[OF refl])
    fix i assume "i \<in> set [0..<k]"
    then have "sint ?n + int (Suc i) < 2 ^ 63" using assms(6) by simp
    from sint_add_of_nat[OF assms(5) this]
    show "(Inr (Sprintf04d (sint (?n + of_nat (Suc i)))) :: error + string)
        = Inr (Sprintf04d (sint ?n + 1 + int i))"
      by (simp add: ac_simps)
  qed
  have "inj_on (\<lambda>i. (Inr (Sprintf04d (sint ?n + 1 + int i)) :: error + string)) (set [0..<k])"
  proof (rule inj_onI)
    fix i j
    assume "(Inr (Sprintf04d (sint ?n + 1 + int i)) :: error + string)
        = Inr (Sprintf04d (sint ?n + 1 + int j))"
    then have "Sprintf04d (sint ?n + 1 + int i) = Sprintf04d (sint ?n + 1 + int j)" by simp
    from Sprintf04d_inj[OF _ _ this] assms(5) show "i = j" by simp
  qed
  then have d: "distinct (map (\<lambda>i. (Inr (Sprintf04d (sint ?n + 1 + int i)) :: error + string)) [0..<k])"
    by (simp add: distinct_map)
  from run have r1: "fst (getNextIDs f db prefix k) =
      map (\<lambda>i. Inr (Sprintf04d (sint ?n + 1 + int i))) [0..<k]"
    unfolding eq by (rule conjunct1)
  from run have r2: "priorNumber (snd (getNextIDs f db prefix k)) prefix = ?n + of_nat k"
    by (rule conjunct2)
  from d have "distinct (fst (getNextIDs f db prefix k))" unfolding r1 .
  with r1 r2 show ?thesis by blast
qed

theorem getNextIDs_contiguous_witness:
  "fst (getNextIDs noNextIDFaults allocatorDB ''ABC'' 3) = [Inr ''0042'', Inr ''0043'', Inr ''0044''] \<and>
   fst (getNextIDs noNextIDFaults allocatorDB ''XYZ'' 2) = [Inr ''0001'', Inr ''0002''] \<and>
   priorNumber (snd (getNextIDs noNextIDFaults allocatorDB ''ABC'' 3)) ''ABC'' = 44"
proof -
  have f: "findErr noNextIDFaults = None" "createErr noNextIDFaults = None"
    "saveErr noNextIDFaults = None" "commitErr noNextIDFaults = None"
    by (simp_all add: noNextIDFaults_def)
  have a: "priorNumber allocatorDB ''ABC'' = 41"
    by (simp add: priorNumber_def storedNumber_def allocatorDB_def)
  have x: "priorNumber allocatorDB ''XYZ'' = 0"
    by (simp add: priorNumber_def storedNumber_def allocatorDB_def)
  have u3: "[0..<3] = [0, 1, 2]" and u2: "[0..<2] = [0, 1]"
    by (simp_all add: upt_rec)
  have "0 \<le> sint (priorNumber allocatorDB ''ABC'')"
    "sint (priorNumber allocatorDB ''ABC'') + int 3 < 2 ^ 63"
    by (simp_all add: a)
  from getNextIDs_contiguous[OF f this]
  have "fst (getNextIDs noNextIDFaults allocatorDB ''ABC'' 3) = [Inr ''0042'', Inr ''0043'', Inr ''0044'']"
    "priorNumber (snd (getNextIDs noNextIDFaults allocatorDB ''ABC'' 3)) ''ABC'' = 44"
    by (simp_all add: a u3 format_eval)
  moreover have "0 \<le> sint (priorNumber allocatorDB ''XYZ'')"
    "sint (priorNumber allocatorDB ''XYZ'') + int 2 < 2 ^ 63"
    by (simp_all add: x)
  from getNextIDs_contiguous[OF f this]
  have "fst (getNextIDs noNextIDFaults allocatorDB ''XYZ'' 2) = [Inr ''0001'', Inr ''0002'']"
    by (simp add: x u2 format_eval)
  ultimately show ?thesis by blast
qed

lemma find_map_other:
  assumes "\<forall>x \<in> set rows. ID x = ID r \<longrightarrow> BackpackID x \<noteq> q" "BackpackID r \<noteq> q"
  shows "find (\<lambda>x. BackpackID x = q) (map (\<lambda>x. if ID x = ID r then r else x) rows)
       = find (\<lambda>x. BackpackID x = q) rows"
  using assms by (induction rows) auto

lemma find_append_other: "\<not> P x \<Longrightarrow> find P (rows @ [x]) = find P rows"
  by (induction rows) auto

lemma getNextID_rows:
  "backpack_id_next_numbers (snd (getNextID f db prefix)) = backpack_id_next_numbers db \<or>
   (find (\<lambda>r. BackpackID r = prefix) (backpack_id_next_numbers db) = None \<and>
    backpack_id_next_numbers (snd (getNextID f db prefix)) =
      backpack_id_next_numbers db @
        [\<lparr>ID = newID f, BackpackID = prefix, Number = 1\<rparr>]) \<or>
   (\<exists>r. find (\<lambda>r. BackpackID r = prefix) (backpack_id_next_numbers db) = Some r \<and>
    backpack_id_next_numbers (snd (getNextID f db prefix)) =
      map (\<lambda>x. if ID x = ID r then r\<lparr>Number := Number r + 1\<rparr> else x)
        (backpack_id_next_numbers db))"
  by (auto simp: getNextID_def firstNextNumber_def createNextNumber_def saveNextNumber_def
      commitNextID_def Let_def find_None_iff
      split: sum.splits if_splits option.splits prod.splits)

text \<open>
  Allocations for different prefixes do not touch each other's counters: in a table
  whose keys are distinct, a call of \<open>getNextID\<close> for one prefix, failed or not, leaves
  the counter of every other prefix as it was, and, the database assigning a key that
  is not in the table, the keys distinct.
\<close>

theorem getNextID_other_prefix:
  assumes "distinct (map ID (backpack_id_next_numbers db))" "q \<noteq> prefix"
    and "newID f \<notin> set (map ID (backpack_id_next_numbers db))"
  shows "storedNumber (snd (getNextID f db prefix)) q = storedNumber db q \<and>
         distinct (map ID (backpack_id_next_numbers (snd (getNextID f db prefix))))"
proof -
  let ?rows = "backpack_id_next_numbers db"
  let ?rows' = "backpack_id_next_numbers (snd (getNextID f db prefix))"
  from getNextID_rows[of f db prefix]
  consider (same) "?rows' = ?rows"
    | (new) "?rows' = ?rows @ [\<lparr>ID = newID f, BackpackID = prefix, Number = 1\<rparr>]"
    | (upd) r where "find (\<lambda>r. BackpackID r = prefix) ?rows = Some r"
        "?rows' = map (\<lambda>x. if ID x = ID r then r\<lparr>Number := Number r + 1\<rparr> else x) ?rows"
    by blast
  then show ?thesis
  proof cases
    case same
    with assms show ?thesis by (simp add: storedNumber_def)
  next
    case new
    with assms show ?thesis
      by (simp add: storedNumber_def find_append_other)
  next
    case upd
    from upd(1) have r: "r \<in> set ?rows" "BackpackID r = prefix"
      by (auto simp: find_Some_iff)
    have only: "\<forall>x \<in> set ?rows. ID x = ID r \<longrightarrow> BackpackID x \<noteq> q"
    proof (intro ballI impI)
      fix x assume "x \<in> set ?rows" "ID x = ID r"
      with assms(1) r(1) have "x = r" by (meson distinct_map inj_onD)
      with r(2) assms(2) show "BackpackID x \<noteq> q" by simp
    qed
    have ids: "map ID (map (\<lambda>x. if ID x = ID r then r\<lparr>Number := Number r + 1\<rparr> else x) ?rows)
        = map ID ?rows"
      by (induction ?rows) auto
    from only r(2) assms(2)
    have "find (\<lambda>x. BackpackID x = q)
            (map (\<lambda>x. if ID x = ID (r\<lparr>Number := Number r + 1\<rparr>)
                       then r\<lparr>Number := Number r + 1\<rparr> else x) ?rows)
        = find (\<lambda>x. BackpackID x = q) ?rows"
      by (intro find_map_other) simp_all
    then have "storedNumber (snd (getNextID f db prefix)) q = storedNumber db q"
      by (simp add: storedNumber_def upd(2))
    moreover have "distinct (map ID ?rows')"
      unfolding upd(2) ids by (rule assms(1))
    ultimately show ?thesis by blast
  qed
qed

theorem getNextID_other_prefix_witness:
  "storedNumber (snd (getNextID noNextIDFaults allocatorDB ''XYZ'')) ''ABC'' = Some 41 \<and>
   storedNumber (snd (getNextID noNextIDFaults allocatorDB ''ABC'')) ''XYZ'' = None"
proof -
  have d: "distinct (map ID (backpack_id_next_numbers allocatorDB))"
    by (simp add: allocatorDB_def)
  have n: "''ABC'' \<noteq> ''XYZ''" "''XYZ'' \<noteq> ''ABC''" by simp_all
  have k: "newID noNextIDFaults \<notin> set (map ID (backpack_id_next_numbers allocatorDB))"
    by (simp add: allocatorDB_def noNextIDFaults_def)
  from getNextID_other_prefix[OF d n(1) k] getNextID_other_prefix[OF d n(2) k]
  show ?thesis by (simp add: storedNumber_def allocatorDB_def)
qed

section \<open>Concurrent allocations\<close>

text \<open>The two steps, one after the other, are \<open>getNextID\<close>.\<close>

lemma getNextID_two_steps:
  "getNextID f db prefix = getNextID_write f db prefix (getNextID_select f db prefix)"
  by (simp add: getNextID_def getNextID_write_def getNextID_select_def)

lemmas schedule_eval =
  runSchedule_def stepRequest_def getNextID_select_def getNextID_write_def firstNextNumber_def
  createNextNumber_def saveNextNumber_def commitNextID_def noNextIDFaults_def allocatorDB_def
  replicate_numeral format_eval

text \<open>
  A request that runs alone, and two requests that run one after the other, behave as
  \<open>getNextID\<close> does.
\<close>

lemma runSchedule_alone:
  "runSchedule f prefix db 1 [0, 0] = (snd (getNextID f db prefix), [Finished (fst (getNextID f db prefix))])"
  by (simp add: runSchedule_def stepRequest_def getNextID_two_steps case_prod_beta Let_def)

lemma runSchedule_serial:
  "runSchedule noNextIDFaults ''ABC'' allocatorDB 2 [0, 0, 1, 1] =
     (allocatorDB\<lparr>backpack_id_next_numbers := [\<lparr>ID = 1, BackpackID = ''ABC'', Number = 43\<rparr>]\<rparr>,
      [Finished (Inr ''0042''), Finished (Inr ''0043'')])"
  by (simp add: schedule_eval)

text \<open>
  Claim C9 fails on the code. Two requests for the prefix \<open>ABC\<close>, whose counter is 41,
  run concurrently; both select before either writes. Each has read 41, each saves 42
  and each returns \<open>0042\<close>: the two requests emit the same sequence number, and the
  counter ends at 42, not 43.
\<close>

theorem getNextID_concurrent_duplicate:
  "runSchedule noNextIDFaults ''ABC'' allocatorDB 2 [0, 1, 0, 1] =
     (allocatorDB\<lparr>backpack_id_next_numbers := [\<lparr>ID = 1, BackpackID = ''ABC'', Number = 42\<rparr>]\<rparr>,
      [Finished (Inr ''0042''), Finished (Inr ''0042'')])"
  by (simp add: schedule_eval)

text \<open>
  Two concurrent first allocations of a prefix do not emit a number twice: the second
  insert violates the unique index and that request fails.
\<close>

lemma runSchedule_first_allocations:
  "runSchedule noNextIDFaults ''XYZ'' allocatorDB 2 [0, 1, 0, 1] =
     (allocatorDB\<lparr>backpack_id_next_numbers :=
        [\<lparr>ID = 1, BackpackID = ''ABC'', Number = 41\<rparr>,
         \<lparr>ID = 2, BackpackID = ''XYZ'', Number = 1\<rparr>]\<rparr>,
      [Finished (Inr ''0001''),
       Finished (Inl (ErrDriver ''duplicate key value violates unique constraint''))])"
  by (simp add: schedule_eval Let_def)

end
